theory Spec2Isabelle
  imports Complex_Main "HOL-Library.Multiset"
begin

section \<open>Semantic re-ranking of search results: a model of the ranking engines\<close>

text \<open>
  The repository holds two copies of the ranking engine: one that caches embeddings in
  Redis (\<open>useCache\<close> defaults to true) and one that takes an in-memory cache object
  (\<open>useCache\<close> defaults to false). Both are embedded here function by function.
  External services (the Redis client, the embeddings endpoint, SHA-256, JSON) are
  parameters of the model; every call to Redis or to the embeddings endpoint is
  appended to a log, so that statements about which calls are made can be proved.
\<close>

subsection \<open>JavaScript numbers\<close>

text \<open>
  A JavaScript number is modelled as a real number or one of the three special values of
  IEEE 754. Arithmetic on finite values is exact (no rounding, overflow or underflow),
  and the two zeros are identified. The special values follow IEEE 754, so that
  \<open>0 / 0\<close> is NaN here as it is in the program, not \<open>0\<close> as in HOL's total
  division.
\<close>

datatype jsnum = Fin real | PInf | NInf | NaN

fun jsneg :: "jsnum \<Rightarrow> jsnum" where
  "jsneg (Fin x) = Fin (- x)"
| "jsneg PInf = NInf"
| "jsneg NInf = PInf"
| "jsneg NaN = NaN"

fun jsadd :: "jsnum \<Rightarrow> jsnum \<Rightarrow> jsnum" where
  "jsadd NaN _ = NaN"
| "jsadd _ NaN = NaN"
| "jsadd (Fin x) (Fin y) = Fin (x + y)"
| "jsadd PInf NInf = NaN"
| "jsadd NInf PInf = NaN"
| "jsadd PInf _ = PInf"
| "jsadd NInf _ = NInf"
| "jsadd (Fin x) PInf = PInf"
| "jsadd (Fin x) NInf = NInf"

definition jssub :: "jsnum \<Rightarrow> jsnum \<Rightarrow> jsnum" where
  "jssub a b = jsadd a (jsneg b)"

text \<open>An infinity of the sign of \<open>x\<close>; NaN for \<open>x = 0\<close> (the product \<open>0 * Infinity\<close>).\<close>

definition inf_of_sign :: "real \<Rightarrow> jsnum" where
  "inf_of_sign x = (if x = 0 then NaN else if 0 < x then PInf else NInf)"

fun jsmul :: "jsnum \<Rightarrow> jsnum \<Rightarrow> jsnum" where
  "jsmul NaN _ = NaN"
| "jsmul _ NaN = NaN"
| "jsmul (Fin x) (Fin y) = Fin (x * y)"
| "jsmul (Fin x) PInf = inf_of_sign x"
| "jsmul (Fin x) NInf = inf_of_sign (- x)"
| "jsmul PInf (Fin y) = inf_of_sign y"
| "jsmul NInf (Fin y) = inf_of_sign (- y)"
| "jsmul PInf PInf = PInf"
| "jsmul NInf NInf = PInf"
| "jsmul PInf NInf = NInf"
| "jsmul NInf PInf = NInf"

text \<open>
  Division. A zero divisor is the positive zero: every divisor in the program is a
  product of two square roots.
\<close>

fun jsdiv :: "jsnum \<Rightarrow> jsnum \<Rightarrow> jsnum" where
  "jsdiv NaN _ = NaN"
| "jsdiv _ NaN = NaN"
| "jsdiv (Fin x) (Fin y) = (if y = 0 then inf_of_sign x else Fin (x / y))"
| "jsdiv (Fin x) PInf = Fin 0"
| "jsdiv (Fin x) NInf = Fin 0"
| "jsdiv PInf (Fin y) = (if 0 \<le> y then PInf else NInf)"
| "jsdiv NInf (Fin y) = (if 0 \<le> y then NInf else PInf)"
| "jsdiv PInf _ = NaN"
| "jsdiv NInf _ = NaN"

fun jssqrt :: "jsnum \<Rightarrow> jsnum" where
  "jssqrt (Fin x) = (if x < 0 then NaN else Fin (sqrt x))"
| "jssqrt PInf = PInf"
| "jssqrt NInf = NaN"
| "jssqrt NaN = NaN"

text \<open>The comparisons \<open>>\<close> and \<open>>=\<close> of IEEE 754: false whenever an operand is NaN.\<close>

fun jsgt :: "jsnum \<Rightarrow> jsnum \<Rightarrow> bool" where
  "jsgt NaN _ = False"
| "jsgt _ NaN = False"
| "jsgt (Fin x) (Fin y) = (y < x)"
| "jsgt PInf PInf = False"
| "jsgt PInf _ = True"
| "jsgt NInf _ = False"
| "jsgt (Fin x) PInf = False"
| "jsgt (Fin x) NInf = True"

fun jsge :: "jsnum \<Rightarrow> jsnum \<Rightarrow> bool" where
  "jsge NaN _ = False"
| "jsge _ NaN = False"
| "jsge a b = (a = b \<or> jsgt a b)"

type_synonym vec = "jsnum list"

subsection \<open>Errors\<close>

text \<open>
  A thrown value is a JavaScript error object: its \<open>name\<close>, its \<open>message\<close> and its
  optional \<open>cause\<close>. \<open>new Error(msg)\<close> has the name \<open>Error\<close> and no cause.
\<close>

datatype js_error = JsError (err_name: string) (err_message: string) (err_cause: "js_error option")

definition Error :: "string \<Rightarrow> js_error" where
  "Error msg = JsError ''Error'' msg None"

text \<open>
  Reading a property of \<open>undefined\<close> throws a TypeError; the wording of its message is
  the engine's.
\<close>

definition TypeError_undefined :: "string \<Rightarrow> js_error" where
  "TypeError_undefined prop =
     JsError ''TypeError'' (''Cannot read properties of undefined (reading '' @ prop @ '')'') None"

subsection \<open>Configuration\<close>

definition EMBEDDING_MODEL :: string where
  "EMBEDDING_MODEL = ''text-embedding-3-small''"

definition EMBEDDING_CACHE_DURATION :: nat where
  "EMBEDDING_CACHE_DURATION = 7 * 24 * 60 * 60"

subsection \<open>Cosine similarity\<close>

text \<open>
  The loop of \<open>cosineSimilarity\<close>: one pass over both arrays with the three
  accumulators \<open>dotProduct\<close>, \<open>normA\<close> and \<open>normB\<close>. It runs only when both arrays
  have the same length.
\<close>

fun cosine_loop :: "vec \<Rightarrow> vec \<Rightarrow> jsnum \<times> jsnum \<times> jsnum \<Rightarrow> jsnum \<times> jsnum \<times> jsnum" where
  "cosine_loop (x # xs) (y # ys) (dotProduct, normA, normB) =
     cosine_loop xs ys
       (jsadd dotProduct (jsmul x y), jsadd normA (jsmul x x), jsadd normB (jsmul y y))"
| "cosine_loop _ _ acc = acc"

definition length_mismatch :: js_error where
  "length_mismatch = Error ''Vectors must have the same length''"

definition cosineSimilarity :: "vec \<Rightarrow> vec \<Rightarrow> js_error + jsnum" where
  "cosineSimilarity a b =
     (if length a \<noteq> length b then Inl length_mismatch
      else (case cosine_loop a b (Fin 0, Fin 0, Fin 0) of
              (dotProduct, normA, normB) \<Rightarrow>
                Inr (jsdiv dotProduct (jsmul (jssqrt normA) (jssqrt normB)))))"

text \<open>
  The quantities the specification names: the dot product of two vectors and the norm
  of a vector, both summed from the left starting at \<open>0\<close>.
\<close>

definition dot_product :: "vec \<Rightarrow> vec \<Rightarrow> jsnum" where
  "dot_product a b = foldl jsadd (Fin 0) (map2 jsmul a b)"

definition vec_norm :: "vec \<Rightarrow> jsnum" where
  "vec_norm a = jssqrt (foldl jsadd (Fin 0) (map (\<lambda>x. jsmul x x) a))"

definition all_zero :: "vec \<Rightarrow> bool" where
  "all_zero a = list_all (\<lambda>x. x = Fin 0) a"

subsection \<open>Search results\<close>

text \<open>
  Modelled from the spec: the type \<open>SearchResult\<close>, which the source imports from
  \<open>types/search\<close>. Its shape is \<open>{ title, snippet, pagemap?: { metatags?: [{
  "og:description"?: string }] } }\<close>; a field that may be absent is an option.
  \<open>RankedResult\<close> is declared in the source: it extends \<open>SearchResult\<close> by
  \<open>similarity\<close>.
\<close>

record Metatag =
  og_description :: "string option"

record Pagemap =
  metatags :: "Metatag list option"

record SearchResult =
  title :: string
  snippet :: string
  pagemap :: "Pagemap option"

record RankedResult = SearchResult +
  similarity :: jsnum

text \<open>
  \<open>extractTextContent\<close> reads \<open>result.pagemap.metatags\<close> without a guard on
  \<open>pagemap\<close>: on a result without that block the read throws. Of the metatags only
  entry \<open>0\<close> is read, and its description is used when it is truthy, that is, present
  and not the empty string.
\<close>

definition extractTextContent :: "SearchResult \<Rightarrow> js_error + string" where
  "extractTextContent result =
     (case pagemap result of
        None \<Rightarrow> Inl (TypeError_undefined ''metatags'')
      | Some pm \<Rightarrow>
         (case metatags pm of
            Some (m # ms) \<Rightarrow>
              (let ogDescription = og_description m;
                   description =
                     (case ogDescription of
                        Some d \<Rightarrow> if d \<noteq> [] then take 800 d else snippet result
                      | None \<Rightarrow> snippet result)
               in Inr (''Title: '' @ title result @ '' Description: '' @ description))
          | _ \<Rightarrow>
              (let cleanSnippet = snippet result
               in Inr (''Title: '' @ title result @ '' Description: '' @ cleanSnippet))))"

subsection \<open>Array.prototype.sort with a comparator\<close>

text \<open>
  The sort of the language is stable; \<open>x\<close> is moved behind \<open>y\<close> only when the
  comparator's value for \<open>(x, y)\<close> is greater than zero, and a comparator value of NaN
  counts as zero. It is modelled as a stable insertion sort. For a comparator that is
  not a consistent ordering the language leaves the order to the engine.
\<close>

fun insert_by :: "('a \<Rightarrow> 'a \<Rightarrow> jsnum) \<Rightarrow> 'a \<Rightarrow> 'a list \<Rightarrow> 'a list" where
  "insert_by cmp x [] = [x]"
| "insert_by cmp x (y # ys) =
     (if jsgt (cmp x y) (Fin 0) then y # insert_by cmp x ys else x # y # ys)"

definition array_sort :: "('a \<Rightarrow> 'a \<Rightarrow> jsnum) \<Rightarrow> 'a list \<Rightarrow> 'a list" where
  "array_sort cmp xs = foldr (insert_by cmp) xs []"

text \<open>The comparator of both engines: \<open>(a, b) => b.similarity - a.similarity\<close>.\<close>

definition by_similarity :: "RankedResult \<Rightarrow> RankedResult \<Rightarrow> jsnum" where
  "by_similarity a b = jssub (similarity b) (similarity a)"

subsection \<open>Strings\<close>

text \<open>
  \<open>String.prototype.trim\<close> removes white space and line terminators from both ends.
  Strings are sequences of 8-bit code units here, so the white space is the characters
  U+0009 to U+000D, the space and the no-break space.
\<close>

definition is_ws :: "char \<Rightarrow> bool" where
  "is_ws c = (c \<in> {CHR 0x09, CHR 0x0A, CHR 0x0B, CHR 0x0C, CHR 0x0D, CHR 0x20, CHR 0xA0})"

definition trim :: "string \<Rightarrow> string" where
  "trim s = rev (dropWhile is_ws (rev (dropWhile is_ws s)))"

subsection \<open>The outside world\<close>

text \<open>
  The pure services the engines use: SHA-256 with hexadecimal output, JSON
  serialisation of a vector, JSON parsing of a cached string (which throws, yields
  \<open>null\<close> or yields an array), and the embeddings endpoint, which answers a request
  with an error or with the list \<open>response.data\<close> of items, each with or without an
  \<open>embedding\<close>. The endpoint is a function: the same input gets the same answer.
\<close>

datatype embed_input = Single string | Batch "string list"

record platform =
  sha256_hex :: "string \<Rightarrow> string"
  json_stringify :: "vec \<Rightarrow> string"
  json_parse :: "string \<Rightarrow> js_error + vec option"
  embeddings_create :: "embed_input \<Rightarrow> js_error + vec option list"

datatype call =
    RedisGet string
  | RedisSetEx string nat "string option"
  | EmbeddingsCreate embed_input

text \<open>
  The state: the flag \<open>isConnected\<close> of the Redis module, the content of the store,
  the keys on which \<open>get\<close> and \<open>setEx\<close> reject (with the error they reject with),
  and the log of calls issued so far.
\<close>

record world =
  isConnected :: bool
  kv :: "string \<Rightarrow> string option"
  get_fault :: "string \<Rightarrow> js_error option"
  set_fault :: "string \<Rightarrow> js_error option"
  calls :: "call list"

type_synonym 'a io = "world \<Rightarrow> (js_error + 'a) \<times> world"

definition ret :: "'a \<Rightarrow> 'a io" where
  "ret x = (\<lambda>w. (Inr x, w))"

definition throw :: "js_error \<Rightarrow> 'a io" where
  "throw e = (\<lambda>w. (Inl e, w))"

definition bind_io :: "'a io \<Rightarrow> ('a \<Rightarrow> 'b io) \<Rightarrow> 'b io" where
  "bind_io m f = (\<lambda>w. case m w of (Inl e, w') \<Rightarrow> (Inl e, w') | (Inr x, w') \<Rightarrow> f x w')"

text \<open>\<open>try { m } catch (error) { h }\<close>\<close>

definition catch_io :: "'a io \<Rightarrow> (js_error \<Rightarrow> 'a io) \<Rightarrow> 'a io" where
  "catch_io m h = (\<lambda>w. case m w of (Inl e, w') \<Rightarrow> h e w' | (Inr x, w') \<Rightarrow> (Inr x, w'))"

definition lift_sum :: "js_error + 'a \<Rightarrow> 'a io" where
  "lift_sum r = (\<lambda>w. (r, w))"

definition log_call :: "call \<Rightarrow> world \<Rightarrow> world" where
  "log_call c w = w\<lparr>calls := calls w @ [c]\<rparr>"

text \<open>
  \<open>Promise.all(xs.map(f))\<close>: every \<open>f x\<close> is started, in the order of the array, and
  the result is the array of their values, or the rejection of the first that rejects.
\<close>

fun promise_all :: "('a \<Rightarrow> 'b io) \<Rightarrow> 'a list \<Rightarrow> 'b list io" where
  "promise_all f [] = ret []"
| "promise_all f (x # xs) =
     (\<lambda>w. case f x w of (r, w1) \<Rightarrow>
        (case promise_all f xs w1 of (rs, w2) \<Rightarrow>
           ((case r of
               Inl e \<Rightarrow> Inl e
             | Inr y \<Rightarrow> (case rs of Inl e \<Rightarrow> Inl e | Inr ys \<Rightarrow> Inr (y # ys))), w2)))"

text \<open>\<open>xs.map(f)\<close> for an \<open>f\<close> that may throw: the first throw ends the map.\<close>

fun map_sum :: "('a \<Rightarrow> js_error + 'b) \<Rightarrow> 'a list \<Rightarrow> js_error + 'b list" where
  "map_sum f [] = Inr []"
| "map_sum f (x # xs) =
     (case f x of
        Inl e \<Rightarrow> Inl e
      | Inr y \<Rightarrow> (case map_sum f xs of Inl e \<Rightarrow> Inl e | Inr ys \<Rightarrow> Inr (y # ys)))"

text \<open>Reading an array at an index: \<open>undefined\<close> (here \<open>None\<close>) out of range.\<close>

definition nth_opt :: "'a list \<Rightarrow> nat \<Rightarrow> 'a option" where
  "nth_opt xs i = (if i < length xs then Some (xs ! i) else None)"

subsubsection \<open>The Redis client\<close>

definition redis_not_connected :: js_error where
  "redis_not_connected = Error ''Redis not connected. Call initRedis() first.''"

definition getRedisClient :: "unit io" where
  "getRedisClient = (\<lambda>w. if \<not> isConnected w then (Inl redis_not_connected, w) else (Inr (), w))"

definition redis_get :: "string \<Rightarrow> string option io" where
  "redis_get key = (\<lambda>w.
     (case get_fault w key of
        Some e \<Rightarrow> (Inl e, log_call (RedisGet key) w)
      | None \<Rightarrow> (Inr (kv w key), log_call (RedisGet key) w)))"

text \<open>
  \<open>setEx\<close> is handed \<open>JSON.stringify(embedding)\<close>, which is \<open>undefined\<close> for an
  undefined embedding; the client rejects a value that is not a string.
\<close>

definition redis_setEx :: "string \<Rightarrow> nat \<Rightarrow> string option \<Rightarrow> unit io" where
  "redis_setEx key ttl val = (\<lambda>w.
     (case val of
        None \<Rightarrow> (Inl (JsError ''TypeError'' ''Invalid argument type'' None),
                  log_call (RedisSetEx key ttl val) w)
      | Some s \<Rightarrow>
         (case set_fault w key of
            Some e \<Rightarrow> (Inl e, log_call (RedisSetEx key ttl val) w)
          | None \<Rightarrow> (Inr (), log_call (RedisSetEx key ttl val) (w\<lparr>kv := (kv w)(key \<mapsto> s)\<rparr>)))))"

definition openai_create :: "platform \<Rightarrow> embed_input \<Rightarrow> vec option list io" where
  "openai_create P inp = (\<lambda>w. (embeddings_create P inp, log_call (EmbeddingsCreate inp) w))"

subsection \<open>The Redis-backed engine\<close>

definition generateEmbeddingCacheKey :: "platform \<Rightarrow> string \<Rightarrow> string" where
  "generateEmbeddingCacheKey P text =
     (let hash = take 16 (sha256_hex P (trim text))
      in ''embedding:'' @ EMBEDDING_MODEL @ '':'' @ hash)"

text \<open>What the body of the \<open>try\<close> in \<open>getCachedEmbedding\<close> makes of the reply of \<open>get\<close>.\<close>

definition parse_cached :: "platform \<Rightarrow> string option \<Rightarrow> js_error + vec option" where
  "parse_cached P cached =
     (case cached of
        None \<Rightarrow> Inr None
      | Some s \<Rightarrow> if s \<noteq> [] then json_parse P s else Inr None)"

definition getCachedEmbedding :: "platform \<Rightarrow> string \<Rightarrow> vec option io" where
  "getCachedEmbedding P text =
     bind_io getRedisClient (\<lambda>redis.
       let cacheKey = generateEmbeddingCacheKey P text
       in catch_io
            (bind_io (redis_get cacheKey) (\<lambda>cached. lift_sum (parse_cached P cached)))
            (\<lambda>error. ret None))"

definition setCachedEmbedding :: "platform \<Rightarrow> string \<Rightarrow> vec option \<Rightarrow> unit io" where
  "setCachedEmbedding P text embedding =
     bind_io getRedisClient (\<lambda>redis.
       let cacheKey = generateEmbeddingCacheKey P text
       in catch_io
            (redis_setEx cacheKey EMBEDDING_CACHE_DURATION (map_option (json_stringify P) embedding))
            (\<lambda>error. ret ()))"

definition empty_text :: js_error where
  "empty_text = Error ''Text cannot be empty for embedding''"

definition no_embedding :: js_error where
  "no_embedding = Error ''No embedding returned from OpenAI API''"

definition missing_embedding :: js_error where
  "missing_embedding = Error ''Missing embedding in batch response''"

text \<open>\<open>response.data[0]?.embedding\<close>\<close>

definition first_embedding :: "vec option list \<Rightarrow> vec option" where
  "first_embedding data = (case data of [] \<Rightarrow> None | item # _ \<Rightarrow> item)"

definition getEmbedding :: "platform \<Rightarrow> string \<Rightarrow> bool \<Rightarrow> vec io" where
  "getEmbedding P text useCache =
     (if text = [] \<or> length (trim text) = 0 then throw empty_text
      else bind_io (if useCache then getCachedEmbedding P text else ret None) (\<lambda>cached.
        case cached of
          Some v \<Rightarrow> ret v
        | None \<Rightarrow>
            bind_io (openai_create P (Single text)) (\<lambda>data.
              case first_embedding data of
                None \<Rightarrow> throw no_embedding
              | Some embedding \<Rightarrow>
                  bind_io (if useCache then setCachedEmbedding P text (Some embedding) else ret ())
                    (\<lambda>u. ret embedding))))"

text \<open>\<open>response.data.map(item => ...)\<close>, which throws at the first item without embedding.\<close>

fun batch_items :: "vec option list \<Rightarrow> js_error + vec list" where
  "batch_items [] = Inr []"
| "batch_items (None # rest) = Inl missing_embedding"
| "batch_items (Some e # rest) =
     (case batch_items rest of Inl err \<Rightarrow> Inl err | Inr es \<Rightarrow> Inr (e # es))"

definition getBatchEmbeddingsFromAPI :: "platform \<Rightarrow> string list \<Rightarrow> vec list io" where
  "getBatchEmbeddingsFromAPI P texts =
     bind_io (openai_create P (Batch texts)) (\<lambda>data. lift_sum (batch_items data))"

text \<open>
  The second \<open>forEach\<close> of \<open>getEmbeddingsBatch\<close>: the \<open>i\<close>-th fresh embedding goes to
  the \<open>i\<close>-th uncached index.
\<close>

definition fill_fresh :: "vec option list \<Rightarrow> nat list \<Rightarrow> vec list \<Rightarrow> vec option list" where
  "fill_fresh embeddings uncachedIndices freshEmbeddings =
     fold (\<lambda>(originalIndex, i) embs. embs[originalIndex := nth_opt freshEmbeddings i])
       (zip uncachedIndices [0..<length uncachedIndices]) embeddings"

definition getEmbeddingsBatch :: "platform \<Rightarrow> string list \<Rightarrow> bool \<Rightarrow> vec option list io" where
  "getEmbeddingsBatch P texts useCache =
     (if \<not> useCache then bind_io (getBatchEmbeddingsFromAPI P texts) (\<lambda>es. ret (map Some es))
      else bind_io (promise_all (getCachedEmbedding P) texts) (\<lambda>embeddings.
        let uncachedIndices = filter (\<lambda>index. embeddings ! index = None) [0..<length embeddings];
            uncachedTexts = map (\<lambda>index. texts ! index) uncachedIndices
        in if length uncachedTexts > 0
           then bind_io (getBatchEmbeddingsFromAPI P uncachedTexts) (\<lambda>freshEmbeddings.
                  bind_io
                    (promise_all (\<lambda>(text, i). setCachedEmbedding P text (nth_opt freshEmbeddings i))
                       (zip uncachedTexts [0..<length uncachedTexts]))
                    (\<lambda>u. ret (fill_fresh embeddings uncachedIndices freshEmbeddings)))
           else ret embeddings))"

text \<open>
  The similarity of result \<open>index\<close>. Where \<open>resultEmbeddings[index]\<close> is undefined, the
  read of its \<open>length\<close> in \<open>cosineSimilarity\<close> throws.
\<close>

definition similarity_at :: "vec \<Rightarrow> vec option list \<Rightarrow> nat \<Rightarrow> js_error + jsnum" where
  "similarity_at queryEmbedding resultEmbeddings index =
     (case nth_opt resultEmbeddings index of
        Some (Some b) \<Rightarrow> cosineSimilarity queryEmbedding b
      | _ \<Rightarrow> Inl (TypeError_undefined ''length''))"

text \<open>\<open>{ ...result, similarity: s }\<close>\<close>

definition with_similarity :: "SearchResult \<Rightarrow> jsnum \<Rightarrow> RankedResult" where
  "with_similarity result s = SearchResult.extend result \<lparr>similarity = s\<rparr>"

definition rank_results :: "vec \<Rightarrow> vec option list \<Rightarrow> SearchResult list \<Rightarrow> js_error + RankedResult list" where
  "rank_results queryEmbedding resultEmbeddings results =
     map_sum (\<lambda>(result, index).
         (case similarity_at queryEmbedding resultEmbeddings index of
            Inl e \<Rightarrow> Inl e
          | Inr s \<Rightarrow> Inr (with_similarity result s)))
       (zip results [0..<length results])"

text \<open>
  \<open>rankSearchResults\<close> of the Redis-backed engine. The option \<open>useCache\<close> defaults to
  true. The \<open>catch\<close> around the body logs and rethrows the error it caught, so it is
  the identity on outcomes.
\<close>

text \<open>\<open>const { useCache = true } = options\<close>\<close>

definition useCache_of :: "bool option \<Rightarrow> bool" where
  "useCache_of options = (case options of None \<Rightarrow> True | Some b \<Rightarrow> b)"

definition rankSearchResults :: "platform \<Rightarrow> string \<Rightarrow> SearchResult list \<Rightarrow> bool option \<Rightarrow> RankedResult list io" where
  "rankSearchResults P query results options =
     (if length results = 0 then ret []
      else
        let useCache = useCache_of options
        in catch_io
             (bind_io (getEmbedding P query useCache) (\<lambda>queryEmbedding.
              bind_io (lift_sum (map_sum extractTextContent results)) (\<lambda>resultTexts.
              bind_io (getEmbeddingsBatch P resultTexts useCache) (\<lambda>resultEmbeddings.
              bind_io (lift_sum (rank_results queryEmbedding resultEmbeddings results)) (\<lambda>rankedResults.
              ret (array_sort by_similarity rankedResults))))))
             (\<lambda>error. throw error))"

subsection \<open>The engine with the in-memory cache\<close>

text \<open>
  \<open>cosineSimilarity\<close> and \<open>extractTextContent\<close> of this engine are the same text as
  in the Redis-backed one. Its \<open>getEmbedding\<close> has no check of the text, and its
  \<open>getEmbeddingsBatch\<close> is the other engine's \<open>getBatchEmbeddingsFromAPI\<close>.
\<close>

definition getEmbedding_mem :: "platform \<Rightarrow> string \<Rightarrow> vec io" where
  "getEmbedding_mem P text =
     bind_io (openai_create P (Single text)) (\<lambda>data.
       case first_embedding data of
         None \<Rightarrow> throw no_embedding
       | Some embedding \<Rightarrow> ret embedding)"

definition getEmbeddingsBatch_mem :: "platform \<Rightarrow> string list \<Rightarrow> vec list io" where
  "getEmbeddingsBatch_mem P texts =
     bind_io (openai_create P (Batch texts)) (\<lambda>data. lift_sum (batch_items data))"

text \<open>
  The options are \<open>useCache\<close> (default false) and \<open>cache\<close> (default: a new empty
  object), an object from texts to vectors that the function updates in place; the model
  returns its final content next to the outcome.
\<close>

type_synonym EmbeddingCache = "string \<Rightarrow> vec option"

definition query_embedding_mem ::
    "platform \<Rightarrow> string \<Rightarrow> bool \<Rightarrow> EmbeddingCache \<Rightarrow> world \<Rightarrow> ((js_error + vec) \<times> EmbeddingCache) \<times> world" where
  "query_embedding_mem P query useCache cache w =
     (case (if useCache then cache query else None) of
        Some v \<Rightarrow> ((Inr v, cache), w)
      | None \<Rightarrow>
         (case getEmbedding_mem P query w of
            (Inl e, w1) \<Rightarrow> ((Inl e, cache), w1)
          | (Inr queryEmbedding, w1) \<Rightarrow>
              ((Inr queryEmbedding, if useCache then cache(query \<mapsto> queryEmbedding) else cache), w1)))"

definition rankSearchResults_mem ::
    "platform \<Rightarrow> string \<Rightarrow> SearchResult list \<Rightarrow> bool option \<Rightarrow> EmbeddingCache option \<Rightarrow> world
       \<Rightarrow> ((js_error + RankedResult list) \<times> EmbeddingCache) \<times> world" where
  "rankSearchResults_mem P query results useCache_opt cache_opt w =
     (let cache0 = (case cache_opt of None \<Rightarrow> Map.empty | Some c \<Rightarrow> c)
      in if length results = 0 then ((Inr [], cache0), w)
         else
           let useCache = (case useCache_opt of None \<Rightarrow> False | Some b \<Rightarrow> b)
           in (case query_embedding_mem P query useCache cache0 w of
                 ((Inl e, cache), w1) \<Rightarrow> ((Inl e, cache), w1)
               | ((Inr queryEmbedding, cache), w1) \<Rightarrow>
                   (case bind_io (lift_sum (map_sum extractTextContent results)) (\<lambda>resultTexts.
                         bind_io (getEmbeddingsBatch_mem P resultTexts) (\<lambda>resultEmbeddings.
                         bind_io (lift_sum (rank_results queryEmbedding (map Some resultEmbeddings) results))
                           (\<lambda>rankedResults. ret (array_sort by_similarity rankedResults)))) w1 of
                      (r, w2) \<Rightarrow> ((r, cache), w2))))"

subsection \<open>Notions of the specification\<close>

text \<open>
  The rich description of a result as the code reads it: the \<open>og:description\<close> of
  entry \<open>0\<close> of the metatags, when that is present and not the empty string.
\<close>

definition rich_description :: "SearchResult \<Rightarrow> string option" where
  "rich_description result =
     (case pagemap result of
        None \<Rightarrow> None
      | Some pm \<Rightarrow>
         (case metatags pm of
            None \<Rightarrow> None
          | Some [] \<Rightarrow> None
          | Some (m # ms) \<Rightarrow>
             (case og_description m of
                None \<Rightarrow> None
              | Some d \<Rightarrow> if d = [] then None else Some d)))"

text \<open>A text is blank when nothing is left of it after trimming.\<close>

definition blank :: "string \<Rightarrow> bool" where
  "blank text = (trim text = [])"

text \<open>
  The error the specification calls a RankingError that wraps a cause: an error object
  of that name whose \<open>cause\<close> is the wrapped error.
\<close>

definition is_RankingError_wrapping :: "js_error \<Rightarrow> js_error \<Rightarrow> bool" where
  "is_RankingError_wrapping cause e = (err_name e = ''RankingError'' \<and> err_cause e = Some cause)"

text \<open>
  The errors that do not come from the cache: those the engine throws itself and those
  the embeddings endpoint answers with.
\<close>

definition raised_by_engine :: "platform \<Rightarrow> js_error \<Rightarrow> bool" where
  "raised_by_engine P e =
     (e \<in> {empty_text, no_embedding, missing_embedding, length_mismatch,
            TypeError_undefined ''metatags'', TypeError_undefined ''length''}
      \<or> Inl e \<in> range (embeddings_create P))"

text \<open>A ranked list is in non-increasing order when every earlier similarity is \<open>>=\<close> every later one.\<close>

definition non_increasing :: "RankedResult list \<Rightarrow> bool" where
  "non_increasing ranked = sorted_wrt (\<lambda>a b. jsge (similarity a) (similarity b)) ranked"

definition no_NaN :: "RankedResult list \<Rightarrow> bool" where
  "no_NaN ranked = list_all (\<lambda>r. similarity r \<noteq> NaN) ranked"

text \<open>
  What the cache holds for a text, as a connected client sees it: the vector the
  stored string parses to. A text is a miss (\<open>None\<close>) when the read rejects, when
  there is no entry or an empty one, and when the entry does not parse or parses to
  \<open>null\<close>.
\<close>

definition cache_lookup :: "platform \<Rightarrow> world \<Rightarrow> string \<Rightarrow> vec option" where
  "cache_lookup P w text =
     (case get_fault w (generateEmbeddingCacheKey P text) of
        Some e \<Rightarrow> None
      | None \<Rightarrow>
         (case parse_cached P (kv w (generateEmbeddingCacheKey P text)) of
            Inl e \<Rightarrow> None
          | Inr v \<Rightarrow> v))"

text \<open>
  The indices of the texts that are misses, in increasing order, and the texts at those
  indices.
\<close>

definition miss_indices :: "platform \<Rightarrow> world \<Rightarrow> string list \<Rightarrow> nat list" where
  "miss_indices P w texts = filter (\<lambda>i. cache_lookup P w (texts ! i) = None) [0..<length texts]"

definition missed_texts :: "platform \<Rightarrow> world \<Rightarrow> string list \<Rightarrow> string list" where
  "missed_texts P w texts = map (\<lambda>i. texts ! i) (miss_indices P w texts)"

text \<open>The answer of the endpoint to a batch, as \<open>getBatchEmbeddingsFromAPI\<close> returns it.\<close>

definition provider_batch :: "platform \<Rightarrow> string list \<Rightarrow> js_error + vec list" where
  "provider_batch P texts =
     (case embeddings_create P (Batch texts) of Inl e \<Rightarrow> Inl e | Inr data \<Rightarrow> batch_items data)"

text \<open>The requests to the embeddings endpoint among a list of calls.\<close>

fun is_provider_call :: "call \<Rightarrow> bool" where
  "is_provider_call (EmbeddingsCreate inp) = True"
| "is_provider_call _ = False"

text \<open>The cache write that \<open>setCachedEmbedding\<close> issues for a text and an embedding.\<close>

definition cache_write :: "platform \<Rightarrow> string \<Rightarrow> vec option \<Rightarrow> call" where
  "cache_write P text embedding =
     RedisSetEx (generateEmbeddingCacheKey P text) EMBEDDING_CACHE_DURATION
       (map_option (json_stringify P) embedding)"

definition cache_read :: "platform \<Rightarrow> string \<Rightarrow> call" where
  "cache_read P text = RedisGet (generateEmbeddingCacheKey P text)"

subsection \<open>Concrete inputs\<close>

text \<open>
  An endpoint and a store to evaluate the engines on. The hash is the identity, so a
  cache key ends in the first 16 characters of the trimmed text. The endpoint answers
  the vector \<open>[1, 0]\<close> for a single text; in a batch, the text of result \<open>far\<close> gets \<open>[0, 1]\<close>, the text of
  result \<open>null\<close> the zero vector, the text of result \<open>short\<close> a vector of length one,
  the text of result \<open>down\<close> makes the request fail, and every other text gets
  \<open>[1, 0]\<close>.
\<close>

definition endpoint_down :: js_error where
  "endpoint_down = JsError ''APIError'' ''503'' None"

definition stub_vector :: "string \<Rightarrow> vec" where
  "stub_vector text =
     (if text = ''Title: far Description: s'' then [Fin 0, Fin 1]
      else if text = ''Title: null Description: s'' then [Fin 0, Fin 0]
      else if text = ''Title: short Description: s'' then [Fin 1]
      else [Fin 1, Fin 0])"

definition stub_create :: "embed_input \<Rightarrow> js_error + vec option list" where
  "stub_create inp =
     (case inp of
        Single text \<Rightarrow> Inr [Some [Fin 1, Fin 0]]
      | Batch texts \<Rightarrow>
          if ''Title: down Description: s'' \<in> set texts then Inl endpoint_down
          else Inr (map (\<lambda>text. Some (stub_vector text)) texts))"

definition stub_parse :: "string \<Rightarrow> js_error + vec option" where
  "stub_parse s =
     (if s = ''[1,0]'' then Inr (Some [Fin 1, Fin 0])
      else if s = ''[0,1]'' then Inr (Some [Fin 0, Fin 1])
      else Inl (JsError ''SyntaxError'' ''Unexpected token'' None))"

definition stub_stringify :: "vec \<Rightarrow> string" where
  "stub_stringify v =
     (if v = [Fin 1, Fin 0] then ''[1,0]'' else if v = [Fin 0, Fin 1] then ''[0,1]'' else ''[]'')"

definition stub_platform :: platform where
  "stub_platform =
     \<lparr>sha256_hex = (\<lambda>s. s), json_stringify = stub_stringify, json_parse = stub_parse,
      embeddings_create = stub_create\<rparr>"

definition result_of :: "string \<Rightarrow> SearchResult" where
  "result_of t = \<lparr>title = t, snippet = ''s'', pagemap = Some \<lparr>metatags = None\<rparr>\<rparr>"

definition empty_world :: world where
  "empty_world =
     \<lparr>isConnected = True, kv = (\<lambda>k. None), get_fault = (\<lambda>k. None), set_fault = (\<lambda>k. None),
      calls = []\<rparr>"

definition offline_world :: world where
  "offline_world = empty_world\<lparr>isConnected := False\<rparr>"

definition redis_down :: js_error where
  "redis_down = JsError ''SocketClosedUnexpectedlyError'' ''Socket closed unexpectedly'' None"

text \<open>A connected client whose every \<open>get\<close> and \<open>setEx\<close> rejects.\<close>

definition faulty_world :: world where
  "faulty_world =
     empty_world\<lparr>get_fault := (\<lambda>k. Some redis_down), set_fault := (\<lambda>k. Some redis_down)\<rparr>"

text \<open>
  A store that holds the vectors of the texts \<open>a\<close>, \<open>c\<close> and \<open>e\<close>, and five texts
  of which the second and the fourth are not in it.
\<close>

definition warm_world :: world where
  "warm_world =
     empty_world\<lparr>kv :=
       [generateEmbeddingCacheKey stub_platform ''a'' \<mapsto> ''[1,0]'',
        generateEmbeddingCacheKey stub_platform ''c'' \<mapsto> ''[0,1]'',
        generateEmbeddingCacheKey stub_platform ''e'' \<mapsto> ''[1,0]'']\<rparr>"

definition five_texts :: "string list" where
  "five_texts = [''a'', ''Title: far Description: s'', ''c'', ''Title: short Description: s'', ''e'']"

section \<open>Properties\<close>

subsection \<open>Laws of sequencing\<close>

lemma bind_ret_left: "bind_io (ret x) f = f x"
  by (simp add: bind_io_def ret_def)

lemma bind_throw_left: "bind_io (throw e) f = throw e"
  by (simp add: bind_io_def throw_def)

lemma bind_assoc: "bind_io (bind_io m f) g = bind_io m (\<lambda>x. bind_io (f x) g)"
  by (auto simp: bind_io_def fun_eq_iff split: prod.splits sum.splits)

lemma catch_rethrow: "catch_io m (\<lambda>error. throw error) = m"
  by (auto simp: catch_io_def throw_def fun_eq_iff split: prod.splits sum.splits)

lemma bind_io_Inl: "m w = (Inl e, w') \<Longrightarrow> bind_io m f w = (Inl e, w')"
  by (simp add: bind_io_def)

lemma bind_io_Inr: "m w = (Inr x, w') \<Longrightarrow> bind_io m f w = f x w'"
  by (simp add: bind_io_def)


lemmas io_defs = bind_io_def catch_io_def ret_def throw_def lift_sum_def log_call_def

lemmas engine_defs =
  rankSearchResults_def useCache_of_def getEmbedding_def getEmbeddingsBatch_def
  getBatchEmbeddingsFromAPI_def getCachedEmbedding_def setCachedEmbedding_def
  getRedisClient_def redis_get_def redis_setEx_def openai_create_def parse_cached_def
  generateEmbeddingCacheKey_def first_embedding_def fill_fresh_def rank_results_def
  similarity_at_def with_similarity_def nth_opt_def cosineSimilarity_def extractTextContent_def
  array_sort_def by_similarity_def jssub_def inf_of_sign_def trim_def is_ws_def
  EMBEDDING_MODEL_def EMBEDDING_CACHE_DURATION_def

lemmas stub_defs =
  stub_platform_def stub_create_def stub_vector_def stub_parse_def stub_stringify_def
  result_of_def empty_world_def offline_world_def faulty_world_def

subsection \<open>Cosine similarity\<close>

lemma cosine_loop_foldl:
  "length a = length b \<Longrightarrow>
   cosine_loop a b (d, na, nb) =
     (foldl jsadd d (map2 jsmul a b),
      foldl jsadd na (map (\<lambda>x. jsmul x x) a),
      foldl jsadd nb (map (\<lambda>x. jsmul x x) b))"
  by (induction a b arbitrary: d na nb rule: list_induct2) simp_all

text \<open>
  C6. \<open>cosineSimilarity a b\<close> throws exactly when the two lengths differ, and what it
  throws then is the error "Vectors must have the same length"; on vectors of equal
  length it returns the dot product divided by the product of the two norms.
\<close>

theorem cosineSimilarity_contract:
  "(isl (cosineSimilarity a b) \<longleftrightarrow> length a \<noteq> length b) \<and>
   (length a \<noteq> length b \<longrightarrow> cosineSimilarity a b = Inl length_mismatch) \<and>
   (length a = length b \<longrightarrow>
      cosineSimilarity a b = Inr (jsdiv (dot_product a b) (jsmul (vec_norm a) (vec_norm b))))"
  by (simp add: cosineSimilarity_def cosine_loop_foldl dot_product_def vec_norm_def)

theorem cosineSimilarity_contract_witness:
  "cosineSimilarity [Fin 1, Fin 0] [Fin 0, Fin 1] = Inr (Fin 0) \<and>
   cosineSimilarity [Fin 1, Fin 0] [Fin 1] = Inl (Error ''Vectors must have the same length'')"
  using cosineSimilarity_contract [of "[Fin 1, Fin 0]" "[Fin 0, Fin 1]"]
        cosineSimilarity_contract [of "[Fin 1, Fin 0]" "[Fin 1]"]
  by (simp add: dot_product_def vec_norm_def length_mismatch_def)

text \<open>
  With an all-zero first vector the accumulator \<open>normA\<close> stays \<open>0\<close> and the dot
  product stays \<open>0\<close> or, when the other vector holds an infinity or a NaN, becomes NaN.
\<close>

lemma zero_loop_left:
  "length a = length b \<Longrightarrow> all_zero a \<Longrightarrow> d \<in> {Fin 0, NaN} \<Longrightarrow>
   cosine_loop a b (d, Fin 0, nb) = (d', na', nb') \<Longrightarrow> d' \<in> {Fin 0, NaN} \<and> na' = Fin 0"
proof (induction a b arbitrary: d nb rule: list_induct2)
  case Nil
  then show ?case by simp
next
  case (Cons x xs y ys)
  from Cons.prems have x: "x = Fin 0" and xs: "all_zero xs"
    by (simp_all add: all_zero_def)
  have "jsadd d (jsmul (Fin 0) y) \<in> {Fin 0, NaN}"
    using Cons.prems(2) by (cases y) (auto simp: inf_of_sign_def)
  with Cons.IH [OF xs this, of "jsadd nb (jsmul y y)"] Cons.prems(3) x
  show ?case by simp
qed

lemma zero_loop_right:
  "length a = length b \<Longrightarrow> all_zero b \<Longrightarrow> d \<in> {Fin 0, NaN} \<Longrightarrow>
   cosine_loop a b (d, na, Fin 0) = (d', na', nb') \<Longrightarrow> d' \<in> {Fin 0, NaN} \<and> nb' = Fin 0"
proof (induction a b arbitrary: d na rule: list_induct2)
  case Nil
  then show ?case by simp
next
  case (Cons x xs y ys)
  from Cons.prems have y: "y = Fin 0" and ys: "all_zero ys"
    by (simp_all add: all_zero_def)
  have "jsadd d (jsmul x (Fin 0)) \<in> {Fin 0, NaN}"
    using Cons.prems(2) by (cases x) (auto simp: inf_of_sign_def)
  with Cons.IH [OF ys this, of "jsadd na (jsmul x x)"] Cons.prems(3) y
  show ?case by simp
qed

lemma zero_quotient_left:
  "d \<in> {Fin 0, NaN} \<Longrightarrow> jsdiv d (jsmul (jssqrt (Fin 0)) z) = NaN"
  by (cases z) (auto simp: inf_of_sign_def)

lemma zero_quotient_right:
  "d \<in> {Fin 0, NaN} \<Longrightarrow> jsdiv d (jsmul z (jssqrt (Fin 0))) = NaN"
  by (cases z) (auto simp: inf_of_sign_def)

text \<open>
  C9. On two vectors of equal length of which at least one is all-zero,
  \<open>cosineSimilarity\<close> returns NaN: no zero-norm policy is applied, the quotient is
  \<open>0 / 0\<close>.
\<close>

theorem cosineSimilarity_zero_vector:
  "length a = length b \<Longrightarrow> all_zero a \<or> all_zero b \<Longrightarrow> cosineSimilarity a b = Inr NaN"
proof -
  assume len: "length a = length b" and z: "all_zero a \<or> all_zero b"
  obtain d na nb where l: "cosine_loop a b (Fin 0, Fin 0, Fin 0) = (d, na, nb)"
    by (cases "cosine_loop a b (Fin 0, Fin 0, Fin 0)")
  from z show ?thesis
  proof
    assume "all_zero a"
    from zero_loop_left [OF len this _ l] have "d \<in> {Fin 0, NaN}" "na = Fin 0" by simp_all
    then show ?thesis
      using len l zero_quotient_left [of d "jssqrt nb"] by (simp add: cosineSimilarity_def)
  next
    assume "all_zero b"
    from zero_loop_right [OF len this _ l] have "d \<in> {Fin 0, NaN}" "nb = Fin 0" by simp_all
    then show ?thesis
      using len l zero_quotient_right [of d "jssqrt na"] by (simp add: cosineSimilarity_def)
  qed
qed

theorem cosineSimilarity_zero_vector_witness:
  "cosineSimilarity [Fin 0, Fin 0] [Fin 3, Fin 4] = Inr NaN \<and>
   cosineSimilarity [Fin 3, PInf] [Fin 0, Fin 0] = Inr NaN"
  using cosineSimilarity_zero_vector [of "[Fin 0, Fin 0]" "[Fin 3, Fin 4]"]
        cosineSimilarity_zero_vector [of "[Fin 3, PInf]" "[Fin 0, Fin 0]"]
  by (simp add: all_zero_def)

subsection \<open>Ranking an empty list\<close>

text \<open>
  C5. On an empty list of results both engines return the empty list at once: the
  state is the one they started in, so nothing was read from or written to the cache
  and no request went to the embeddings endpoint.
\<close>

theorem rank_empty:
  "rankSearchResults P query [] options w = (Inr [], w) \<and>
   rankSearchResults_mem P query [] useCache_opt cache_opt w =
     ((Inr [], case cache_opt of None \<Rightarrow> Map.empty | Some c \<Rightarrow> c), w)"
  by (simp add: rankSearchResults_def rankSearchResults_mem_def ret_def)

subsection \<open>Result text\<close>

text \<open>
  C4 as stated fails in three ways. A result without \<open>pagemap\<close> makes
  \<open>extractTextContent\<close> throw; a description in a later entry of the metatags is not
  used; and an empty description is passed over in favour of the snippet.
\<close>

theorem extractTextContent_counterexample:
  "extractTextContent \<lparr>title = ''T'', snippet = ''S'', pagemap = None\<rparr>
     = Inl (TypeError_undefined ''metatags'') \<and>
   extractTextContent \<lparr>title = ''T'', snippet = ''S'',
       pagemap = Some \<lparr>metatags = Some [\<lparr>og_description = None\<rparr>, \<lparr>og_description = Some ''rich''\<rparr>]\<rparr>\<rparr>
     = Inr ''Title: T Description: S'' \<and>
   extractTextContent \<lparr>title = ''T'', snippet = ''S'',
       pagemap = Some \<lparr>metatags = Some [\<lparr>og_description = Some ''''\<rparr>]\<rparr>\<rparr>
     = Inr ''Title: T Description: S''"
  by (simp add: extractTextContent_def)

text \<open>
  C4, amended. For every result that has a \<open>pagemap\<close> block (with or without
  metatags), \<open>extractTextContent\<close> does not fail and returns
  "Title: {title} Description: {description}", where the description is the first 800
  characters of the \<open>og:description\<close> of the first metatags entry when that entry
  exists and its description is present and not empty, and the snippet otherwise.
\<close>

theorem extractTextContent_text:
  "pagemap result \<noteq> None \<Longrightarrow>
   extractTextContent result =
     Inr (''Title: '' @ title result @ '' Description: '' @
          (case rich_description result of Some d \<Rightarrow> take 800 d | None \<Rightarrow> snippet result))"
  by (auto simp: extractTextContent_def rich_description_def split: option.splits list.splits)

theorem extractTextContent_text_witness:
  "extractTextContent \<lparr>title = ''T'', snippet = ''S'',
       pagemap = Some \<lparr>metatags = Some [\<lparr>og_description = Some ''rich''\<rparr>]\<rparr>\<rparr>
     = Inr ''Title: T Description: rich''"
  using extractTextContent_text [of "\<lparr>title = ''T'', snippet = ''S'',
       pagemap = Some \<lparr>metatags = Some [\<lparr>og_description = Some ''rich''\<rparr>]\<rparr>\<rparr>"]
  by (simp add: rich_description_def)

lemma extractTextContent_shape:
  "extractTextContent result = Inr t \<Longrightarrow> \<exists>rest. t = ''Title: '' @ rest"
  by (auto simp: extractTextContent_def Let_def split: option.splits list.splits if_splits)

lemma trim_Nil_iff: "trim s = [] \<longleftrightarrow> (\<forall>c \<in> set s. is_ws c)"
proof
  assume a: "trim s = []"
  have b: "\<forall>c \<in> set (dropWhile is_ws s). is_ws c"
    using a by (simp only: trim_def rev_is_Nil_conv dropWhile_eq_Nil_conv set_rev)
  have "dropWhile is_ws s = []"
  proof (rule ccontr)
    assume n: "dropWhile is_ws s \<noteq> []"
    then have "\<not> is_ws (hd (dropWhile is_ws s))" by (rule hd_dropWhile)
    moreover have "hd (dropWhile is_ws s) \<in> set (dropWhile is_ws s)" using n by (rule hd_in_set)
    ultimately show False using b by blast
  qed
  then show "\<forall>c \<in> set s. is_ws c" by (simp only: dropWhile_eq_Nil_conv)
next
  assume "\<forall>c \<in> set s. is_ws c"
  then have d: "dropWhile is_ws s = []" by (simp only: dropWhile_eq_Nil_conv)
  show "trim s = []" unfolding trim_def d by simp
qed

lemma extractTextContent_not_blank:
  "extractTextContent result = Inr t \<Longrightarrow> \<not> blank t"
proof -
  assume "extractTextContent result = Inr t"
  then obtain rest where "t = ''Title: '' @ rest" using extractTextContent_shape by blast
  then have "CHR ''T'' \<in> set t" by simp
  moreover have "\<not> is_ws CHR ''T''" by (simp add: is_ws_def)
  ultimately show ?thesis unfolding blank_def trim_Nil_iff by blast
qed

subsection \<open>Blank texts\<close>

lemma blank_getEmbedding:
  "blank text \<Longrightarrow> getEmbedding P text useCache w = (Inl empty_text, w)"
  by (simp add: getEmbedding_def blank_def throw_def)

lemma getBatchEmbeddingsFromAPI_calls:
  "calls (snd (getBatchEmbeddingsFromAPI P texts w)) = calls w @ [EmbeddingsCreate (Batch texts)]"
  by (simp add: getBatchEmbeddingsFromAPI_def bind_io_def openai_create_def log_call_def lift_sum_def
      split: sum.splits)

text \<open>
  C8 as stated fails for the batch operation: a batch that holds a blank text is sent
  to the embeddings endpoint, with and without the cache layer in front. The
  single-text operation of the engine with the in-memory cache sends a blank text to the
  endpoint as well.
\<close>

theorem blank_text_counterexample:
  "blank ''  '' \<and>
   getBatchEmbeddingsFromAPI stub_platform [''  ''] empty_world
     = (Inr [[Fin 1, Fin 0]], empty_world\<lparr>calls := [EmbeddingsCreate (Batch [''  ''])]\<rparr>) \<and>
   getEmbeddingsBatch stub_platform [''  ''] False empty_world
     = (Inr [Some [Fin 1, Fin 0]], empty_world\<lparr>calls := [EmbeddingsCreate (Batch [''  ''])]\<rparr>) \<and>
   getEmbedding_mem stub_platform ''  '' empty_world
     = (Inr [Fin 1, Fin 0], empty_world\<lparr>calls := [EmbeddingsCreate (Single ''  '')]\<rparr>)"
  by (simp add: blank_def trim_def is_ws_def getEmbeddingsBatch_def getBatchEmbeddingsFromAPI_def
      getEmbedding_mem_def first_embedding_def
      bind_io_def openai_create_def log_call_def lift_sum_def ret_def stub_platform_def
      stub_create_def stub_vector_def empty_world_def)

text \<open>
  C8, amended. The single-text operation \<open>getEmbedding\<close> of the Redis-backed engine
  fails on a blank text with the error "Text cannot be empty for embedding" and leaves
  the state as it was: no cache read and no request to the endpoint. The batch request
  \<open>getBatchEmbeddingsFromAPI\<close> makes no such check: it sends whatever texts it is
  given. The texts the ranking hands to it come from \<open>extractTextContent\<close> and are
  never blank.
\<close>

theorem blank_text_rejected:
  "(blank text \<longrightarrow> getEmbedding P text useCache w = (Inl empty_text, w)) \<and>
   calls (snd (getBatchEmbeddingsFromAPI P texts w)) = calls w @ [EmbeddingsCreate (Batch texts)] \<and>
   (extractTextContent result = Inr t \<longrightarrow> \<not> blank t)"
  using blank_getEmbedding getBatchEmbeddingsFromAPI_calls extractTextContent_not_blank by blast

theorem blank_text_rejected_witness:
  "blank ''  '' \<and> getEmbedding stub_platform ''  '' True empty_world = (Inl empty_text, empty_world) \<and>
   extractTextContent (result_of ''a'') = Inr ''Title: a Description: s'' \<and>
   \<not> blank ''Title: a Description: s''"
  using blank_text_rejected [of "''  ''" stub_platform True empty_world "[]" "result_of ''a''"
      "''Title: a Description: s''"]
  by (simp add: blank_def trim_def is_ws_def extractTextContent_def result_of_def)

subsection \<open>The two engines without cache\<close>

lemma getEmbedding_without_cache:
  "\<not> blank text \<Longrightarrow> getEmbedding P text False = getEmbedding_mem P text"
proof -
  assume "\<not> blank text"
  then have "text \<noteq> []" "length (trim text) \<noteq> 0"
    by (auto simp: blank_def trim_def)
  then show ?thesis
    by (simp add: getEmbedding_def getEmbedding_mem_def bind_ret_left cong: option.case_cong)
qed

lemma getEmbeddingsBatch_without_cache:
  "getEmbeddingsBatch P texts False =
     bind_io (getEmbeddingsBatch_mem P texts) (\<lambda>es. ret (map Some es))"
  by (simp add: getEmbeddingsBatch_def getEmbeddingsBatch_mem_def getBatchEmbeddingsFromAPI_def)

lemma rank_without_cache:
  "results \<noteq> [] \<Longrightarrow> \<not> blank query \<Longrightarrow>
   rankSearchResults P query results (Some False) =
     bind_io (getEmbedding_mem P query) (\<lambda>queryEmbedding.
     bind_io (lift_sum (map_sum extractTextContent results)) (\<lambda>resultTexts.
     bind_io (getEmbeddingsBatch_mem P resultTexts) (\<lambda>resultEmbeddings.
     bind_io (lift_sum (rank_results queryEmbedding (map Some resultEmbeddings) results))
       (\<lambda>rankedResults. ret (array_sort by_similarity rankedResults)))))"
  by (simp add: rankSearchResults_def useCache_of_def catch_rethrow getEmbedding_without_cache
      getEmbeddingsBatch_without_cache bind_assoc bind_ret_left)

lemma query_embedding_mem_without_cache:
  "query_embedding_mem P query False cache w =
     ((fst (getEmbedding_mem P query w), cache), snd (getEmbedding_mem P query w))"
  by (simp add: query_embedding_mem_def split: prod.splits sum.splits)

text \<open>
  C10. With caching disabled (the option absent or false for the in-memory engine,
  false for the Redis-backed one) and a query that is not blank, the two engines
  return the same outcome and leave the same state, for every list of results: the
  endpoint is a function of its input, so both get the same vectors.
\<close>

theorem engines_agree_without_cache:
  "\<not> blank query \<Longrightarrow> useCache_opt = None \<or> useCache_opt = Some False \<Longrightarrow>
   rankSearchResults_mem P query results useCache_opt cache_opt w =
     ((fst (rankSearchResults P query results (Some False) w),
       case cache_opt of None \<Rightarrow> Map.empty | Some c \<Rightarrow> c),
      snd (rankSearchResults P query results (Some False) w))"
proof (cases "results = []")
  case True
  then show ?thesis
    by (simp add: rankSearchResults_def rankSearchResults_mem_def ret_def)
next
  case False
  assume nb: "\<not> blank query" and u: "useCache_opt = None \<or> useCache_opt = Some False"
  from u have uc: "(case useCache_opt of None \<Rightarrow> False | Some b \<Rightarrow> b) = False" by auto
  obtain r w1 where g: "getEmbedding_mem P query w = (r, w1)"
    by (cases "getEmbedding_mem P query w")
  show ?thesis
  proof (cases r)
    case (Inl e)
    with g False uc show ?thesis
      by (simp add: rank_without_cache [OF False nb] rankSearchResults_mem_def
          query_embedding_mem_without_cache bind_io_Inl)
  next
    case (Inr queryEmbedding)
    with g False uc show ?thesis
      by (simp add: rank_without_cache [OF False nb] rankSearchResults_mem_def
          query_embedding_mem_without_cache bind_io_Inr split: prod.splits)
  qed
qed

lemma rank_far_near:
  "rankSearchResults stub_platform ''q'' [result_of ''far'', result_of ''near''] (Some False) empty_world
  = (Inr [with_similarity (result_of ''near'') (Fin 1), with_similarity (result_of ''far'') (Fin 0)],
     empty_world\<lparr>calls := [EmbeddingsCreate (Single ''q''),
        EmbeddingsCreate (Batch [''Title: far Description: s'', ''Title: near Description: s''])]\<rparr>)"
  by (simp add: engine_defs io_defs stub_defs SearchResult.extend_def)

theorem engines_agree_without_cache_witness:
  "\<not> blank ''q'' \<and>
   rankSearchResults_mem stub_platform ''q'' [result_of ''far'', result_of ''near''] None None empty_world
   = ((Inr [with_similarity (result_of ''near'') (Fin 1), with_similarity (result_of ''far'') (Fin 0)],
       Map.empty),
      empty_world\<lparr>calls := [EmbeddingsCreate (Single ''q''),
        EmbeddingsCreate (Batch [''Title: far Description: s'', ''Title: near Description: s''])]\<rparr>)"
proof -
  have nb: "\<not> blank ''q''" by (simp add: blank_def trim_def is_ws_def)
  show ?thesis
    using nb engines_agree_without_cache [OF nb, of None stub_platform
        "[result_of ''far'', result_of ''near'']" None empty_world]
    by (simp add: rank_far_near)
qed

subsection \<open>The steps of a ranking\<close>

lemma rank_nonempty:
  "results \<noteq> [] \<Longrightarrow>
   rankSearchResults P query results options =
     bind_io (getEmbedding P query (useCache_of options)) (\<lambda>queryEmbedding.
     bind_io (lift_sum (map_sum extractTextContent results)) (\<lambda>resultTexts.
     bind_io (getEmbeddingsBatch P resultTexts (useCache_of options)) (\<lambda>resultEmbeddings.
     bind_io (lift_sum (rank_results queryEmbedding resultEmbeddings results)) (\<lambda>rankedResults.
     ret (array_sort by_similarity rankedResults)))))"
  by (simp add: rankSearchResults_def catch_rethrow Let_def)

lemma rank_cases:
  assumes "results \<noteq> []" and "rankSearchResults P query results options w = (r, w')"
  obtains
    (query_fails) e where
      "getEmbedding P query (useCache_of options) w = (Inl e, w')" "r = Inl e"
  | (extract_fails) qe e where
      "getEmbedding P query (useCache_of options) w = (Inr qe, w')"
      "map_sum extractTextContent results = Inl e" "r = Inl e"
  | (batch_fails) qe w1 texts e where
      "getEmbedding P query (useCache_of options) w = (Inr qe, w1)"
      "map_sum extractTextContent results = Inr texts"
      "getEmbeddingsBatch P texts (useCache_of options) w1 = (Inl e, w')" "r = Inl e"
  | (similarity_fails) qe w1 texts embs e where
      "getEmbedding P query (useCache_of options) w = (Inr qe, w1)"
      "map_sum extractTextContent results = Inr texts"
      "getEmbeddingsBatch P texts (useCache_of options) w1 = (Inr embs, w')"
      "rank_results qe embs results = Inl e" "r = Inl e"
  | (ranked) qe w1 texts embs rankedResults where
      "getEmbedding P query (useCache_of options) w = (Inr qe, w1)"
      "map_sum extractTextContent results = Inr texts"
      "getEmbeddingsBatch P texts (useCache_of options) w1 = (Inr embs, w')"
      "rank_results qe embs results = Inr rankedResults"
      "r = Inr (array_sort by_similarity rankedResults)"
proof -
  obtain r1 w1 where g: "getEmbedding P query (useCache_of options) w = (r1, w1)"
    by (cases "getEmbedding P query (useCache_of options) w")
  show thesis
  proof (cases r1)
    case (Inl e)
    with g assms(1) have "rankSearchResults P query results options w = (Inl e, w1)"
      by (simp add: rank_nonempty bind_io_def)
    with assms(2) have "r = Inl e" "w' = w1" by simp_all
    with g Inl show thesis by (intro query_fails [of e]) simp_all
  next
    case qe: (Inr qe)
    show thesis
    proof (cases "map_sum extractTextContent results")
      case (Inl e)
      with g qe assms(1) have "rankSearchResults P query results options w = (Inl e, w1)"
        by (simp add: rank_nonempty bind_io_def lift_sum_def)
      with assms(2) have "r = Inl e" "w' = w1" by simp_all
      with g qe Inl show thesis by (intro extract_fails [of qe e]) simp_all
    next
      case texts: (Inr texts)
      obtain r2 w2 where b: "getEmbeddingsBatch P texts (useCache_of options) w1 = (r2, w2)"
        by (cases "getEmbeddingsBatch P texts (useCache_of options) w1")
      show thesis
      proof (cases r2)
        case (Inl e)
        with g qe texts b assms(1) have "rankSearchResults P query results options w = (Inl e, w2)"
          by (simp add: rank_nonempty bind_io_def lift_sum_def)
        with assms(2) have "r = Inl e" "w' = w2" by simp_all
        with g qe texts b Inl show thesis by (intro batch_fails [of qe w1 texts e]) simp_all
      next
        case embs: (Inr embs)
        show thesis
        proof (cases "rank_results qe embs results")
          case (Inl e)
          with g qe texts b embs assms(1)
          have "rankSearchResults P query results options w = (Inl e, w2)"
            by (simp add: rank_nonempty bind_io_def lift_sum_def)
          with assms(2) have "r = Inl e" "w' = w2" by simp_all
          with g qe texts b embs Inl show thesis
            by (intro similarity_fails [of qe w1 texts embs e]) simp_all
        next
          case (Inr rankedResults)
          with g qe texts b embs assms(1)
          have "rankSearchResults P query results options w
                  = (Inr (array_sort by_similarity rankedResults), w2)"
            by (simp add: rank_nonempty bind_io_def lift_sum_def ret_def)
          with assms(2) have "r = Inr (array_sort by_similarity rankedResults)" "w' = w2"
            by simp_all
          with g qe texts b embs Inr show thesis
            by (intro ranked [of qe w1 texts embs rankedResults]) simp_all
        qed
      qed
    qed
  qed
qed

subsection \<open>Lists of fallible steps\<close>

lemma map_sum_length: "map_sum f xs = Inr ys \<Longrightarrow> length ys = length xs"
  by (induction xs arbitrary: ys) (auto split: sum.splits)

lemma map_sum_map:
  "map_sum f xs = Inr ys \<Longrightarrow> (\<And>x y. f x = Inr y \<Longrightarrow> g y = h x) \<Longrightarrow> map g ys = map h xs"
  by (induction xs arbitrary: ys) (auto split: sum.splits)

lemma map_sum_Inl:
  "map_sum f xs = Inl e \<Longrightarrow> \<exists>x \<in> set xs. f x = Inl e"
  by (induction xs) (auto split: sum.splits)

lemma truncate_with_similarity: "SearchResult.truncate (with_similarity result s) = result"
  by (simp add: with_similarity_def SearchResult.truncate_def SearchResult.extend_def)

lemma similarity_with_similarity: "similarity (with_similarity result s) = s"
  by (simp add: with_similarity_def SearchResult.extend_def)

lemma rank_results_truncate:
  assumes "rank_results qe embs results = Inr rankedResults"
  shows "map SearchResult.truncate rankedResults = results"
proof -
  have "map SearchResult.truncate rankedResults = map fst (zip results [0..<length results])"
    using assms unfolding rank_results_def
    by (rule map_sum_map) (auto simp: truncate_with_similarity split: sum.splits)
  then show ?thesis by simp
qed

lemma rank_results_length:
  "rank_results qe embs results = Inr rankedResults \<Longrightarrow> length rankedResults = length results"
  using rank_results_truncate [of qe embs results rankedResults]
  by (metis length_map)

lemma similarity_at_error:
  "similarity_at qe embs i = Inl e \<Longrightarrow> e = length_mismatch \<or> e = TypeError_undefined ''length''"
  by (auto simp: similarity_at_def cosineSimilarity_def split: option.splits if_splits prod.splits)

lemma rank_results_error:
  assumes "rank_results qe embs results = Inl e"
  shows "e = length_mismatch \<or> e = TypeError_undefined ''length''"
proof -
  from assms obtain result index where "similarity_at qe embs index = Inl e"
    unfolding rank_results_def by (auto dest!: map_sum_Inl split: sum.splits)
  then show ?thesis by (rule similarity_at_error)
qed

lemma extractTextContent_error:
  "extractTextContent result = Inl e \<Longrightarrow> e = TypeError_undefined ''metatags''"
  by (auto simp: extractTextContent_def Let_def split: option.splits list.splits)

lemma extract_error:
  "map_sum extractTextContent results = Inl e \<Longrightarrow> e = TypeError_undefined ''metatags''"
  by (auto dest!: map_sum_Inl extractTextContent_error)

subsection \<open>The sort\<close>

lemma mset_insert_by: "mset (insert_by cmp x ys) = add_mset x (mset ys)"
  by (induction ys) simp_all

lemma mset_array_sort: "mset (array_sort cmp xs) = mset xs"
  by (induction xs) (simp_all add: array_sort_def mset_insert_by)

lemma length_array_sort: "length (array_sort cmp xs) = length xs"
  using mset_array_sort [of cmp xs] by (metis size_mset)

lemma set_array_sort: "set (array_sort cmp xs) = set xs"
  using mset_array_sort [of cmp xs] by (metis set_mset_mset)

lemma jsgt_difference:
  "a \<noteq> NaN \<Longrightarrow> b \<noteq> NaN \<Longrightarrow> jsgt (jssub a b) (Fin 0) = jsgt a b"
  by (cases a; cases b) (simp_all add: jssub_def)

lemma jsge_total: "a \<noteq> NaN \<Longrightarrow> b \<noteq> NaN \<Longrightarrow> \<not> jsgt b a \<Longrightarrow> jsge a b"
  by (cases a; cases b) auto

lemma jsgt_jsge: "jsgt a b \<Longrightarrow> jsge a b"
  by (cases a; cases b) auto

lemma jsge_trans: "jsge a b \<Longrightarrow> jsge b c \<Longrightarrow> jsge a c"
  by (cases a; cases b; cases c) auto

lemma set_insert_by: "set (insert_by cmp x ys) = insert x (set ys)"
  using mset_insert_by [of cmp x ys] by (metis set_mset_add_mset_insert set_mset_mset)

lemma non_increasing_insert:
  assumes "similarity x \<noteq> NaN" and "\<forall>y \<in> set ys. similarity y \<noteq> NaN" and "non_increasing ys"
  shows "non_increasing (insert_by by_similarity x ys)"
  using assms
proof (induction ys)
  case Nil
  then show ?case by (simp add: non_increasing_def)
next
  case (Cons y ys)
  have y: "similarity y \<noteq> NaN" using Cons.prems(2) by simp
  show ?case
  proof (cases "jsgt (similarity y) (similarity x)")
    case True
    then have i: "insert_by by_similarity x (y # ys) = y # insert_by by_similarity x ys"
      using Cons.prems(1) y by (simp add: by_similarity_def jsgt_difference)
    have "non_increasing (insert_by by_similarity x ys)"
      using Cons by (simp add: non_increasing_def)
    moreover have "\<forall>z \<in> set (insert_by by_similarity x ys). jsge (similarity y) (similarity z)"
      using Cons.prems(3) True by (auto simp: set_insert_by non_increasing_def jsgt_jsge)
    ultimately show ?thesis unfolding i by (simp add: non_increasing_def)
  next
    case False
    then have i: "insert_by by_similarity x (y # ys) = x # y # ys"
      using Cons.prems(1) y by (simp add: by_similarity_def jsgt_difference)
    have xy: "jsge (similarity x) (similarity y)"
      using False Cons.prems(1) y by (rule_tac jsge_total)
    have "\<forall>z \<in> set ys. jsge (similarity x) (similarity z)"
      using Cons.prems(3) xy by (auto simp: non_increasing_def intro: jsge_trans)
    with xy Cons.prems(3) show ?thesis unfolding i by (simp add: non_increasing_def)
  qed
qed

lemma non_increasing_array_sort:
  "no_NaN xs \<Longrightarrow> non_increasing (array_sort by_similarity xs)"
proof (induction xs)
  case Nil
  then show ?case by (simp add: array_sort_def non_increasing_def)
next
  case (Cons x xs)
  then have "non_increasing (array_sort by_similarity xs)" by (simp add: no_NaN_def)
  moreover have "similarity x \<noteq> NaN" "\<forall>y \<in> set (array_sort by_similarity xs). similarity y \<noteq> NaN"
    using Cons.prems by (simp_all add: no_NaN_def set_array_sort list_all_iff)
  ultimately have "non_increasing (insert_by by_similarity x (array_sort by_similarity xs))"
    by (intro non_increasing_insert) simp_all
  then show ?case by (simp add: array_sort_def)
qed

lemma no_NaN_array_sort: "no_NaN (array_sort cmp xs) = no_NaN xs"
  by (simp add: no_NaN_def list_all_iff set_array_sort)

subsection \<open>Errors of a ranking\<close>

lemma rank_blank_query:
  "rankSearchResults stub_platform ''  '' [result_of ''near''] None empty_world
     = (Inl empty_text, empty_world)"
  by (simp add: engine_defs io_defs stub_defs)

lemma rank_endpoint_down:
  "rankSearchResults stub_platform ''q'' [result_of ''down''] (Some False) empty_world
     = (Inl endpoint_down,
        empty_world\<lparr>calls := [EmbeddingsCreate (Single ''q''),
                                EmbeddingsCreate (Batch [''Title: down Description: s''])]\<rparr>)"
  by (simp add: engine_defs io_defs stub_defs)

text \<open>
  C7 as stated fails: the error that reaches the caller is the error of the failing
  step itself, not an error named RankingError that carries it as its cause.
\<close>

theorem rank_error_counterexample:
  "rankSearchResults stub_platform ''  '' [result_of ''near''] None empty_world
     = (Inl empty_text, empty_world) \<and>
   \<not> is_RankingError_wrapping empty_text empty_text \<and>
   fst (rankSearchResults stub_platform ''q'' [result_of ''down''] (Some False) empty_world)
     = Inl endpoint_down \<and>
   \<not> is_RankingError_wrapping endpoint_down endpoint_down"
  by (simp add: rank_blank_query rank_endpoint_down is_RankingError_wrapping_def empty_text_def
      Error_def endpoint_down_def)

lemma step_query_fails:
  "results \<noteq> [] \<Longrightarrow> getEmbedding P query (useCache_of options) w = (Inl e, wq) \<Longrightarrow>
   rankSearchResults P query results options w = (Inl e, wq)"
  by (simp add: rank_nonempty bind_io_def)

lemma step_extract_fails:
  "results \<noteq> [] \<Longrightarrow> getEmbedding P query (useCache_of options) w = (Inr qe, wq) \<Longrightarrow>
   map_sum extractTextContent results = Inl e \<Longrightarrow>
   rankSearchResults P query results options w = (Inl e, wq)"
  by (simp add: rank_nonempty bind_io_def lift_sum_def)

lemma step_batch_fails:
  "results \<noteq> [] \<Longrightarrow> getEmbedding P query (useCache_of options) w = (Inr qe, wq) \<Longrightarrow>
   map_sum extractTextContent results = Inr texts \<Longrightarrow>
   getEmbeddingsBatch P texts (useCache_of options) wq = (Inl e, wb) \<Longrightarrow>
   rankSearchResults P query results options w = (Inl e, wb)"
  by (simp add: rank_nonempty bind_io_def lift_sum_def)

lemma step_similarity_fails:
  "results \<noteq> [] \<Longrightarrow> getEmbedding P query (useCache_of options) w = (Inr qe, wq) \<Longrightarrow>
   map_sum extractTextContent results = Inr texts \<Longrightarrow>
   getEmbeddingsBatch P texts (useCache_of options) wq = (Inr embs, wb) \<Longrightarrow>
   rank_results qe embs results = Inl e \<Longrightarrow>
   rankSearchResults P query results options w = (Inl e, wb)"
  by (simp add: rank_nonempty bind_io_def lift_sum_def)

lemma rank_error_origin:
  assumes "rankSearchResults P query results options w = (Inl e, w')"
  shows "results \<noteq> [] \<and>
      (getEmbedding P query (useCache_of options) w = (Inl e, w') \<or>
       (\<exists>qe. getEmbedding P query (useCache_of options) w = (Inr qe, w') \<and>
             map_sum extractTextContent results = Inl e) \<or>
       (\<exists>qe wq texts.
          getEmbedding P query (useCache_of options) w = (Inr qe, wq) \<and>
          map_sum extractTextContent results = Inr texts \<and>
          getEmbeddingsBatch P texts (useCache_of options) wq = (Inl e, w')) \<or>
       (\<exists>qe wq texts embs.
          getEmbedding P query (useCache_of options) w = (Inr qe, wq) \<and>
          map_sum extractTextContent results = Inr texts \<and>
          getEmbeddingsBatch P texts (useCache_of options) wq = (Inr embs, w') \<and>
          rank_results qe embs results = Inl e))"
proof
  show ne: "results \<noteq> []"
    using assms by (auto simp: rankSearchResults_def ret_def)
  from ne assms show
     "getEmbedding P query (useCache_of options) w = (Inl e, w') \<or>
       (\<exists>qe. getEmbedding P query (useCache_of options) w = (Inr qe, w') \<and>
             map_sum extractTextContent results = Inl e) \<or>
       (\<exists>qe wq texts.
          getEmbedding P query (useCache_of options) w = (Inr qe, wq) \<and>
          map_sum extractTextContent results = Inr texts \<and>
          getEmbeddingsBatch P texts (useCache_of options) wq = (Inl e, w')) \<or>
       (\<exists>qe wq texts embs.
          getEmbedding P query (useCache_of options) w = (Inr qe, wq) \<and>
          map_sum extractTextContent results = Inr texts \<and>
          getEmbeddingsBatch P texts (useCache_of options) wq = (Inr embs, w') \<and>
          rank_results qe embs results = Inl e)"
    by (cases rule: rank_cases) auto
qed

lemma rank_complete_list:
  assumes "rankSearchResults P query results options w = (Inr ranked, w')"
  shows "length ranked = length results"
proof (cases "results = []")
  case True
  with assms show ?thesis by (simp add: rankSearchResults_def ret_def)
next
  case False
  from False assms show ?thesis
    by (cases rule: rank_cases) (auto simp: length_array_sort rank_results_length)
qed

text \<open>
  C7, amended. When a step inside \<open>rankSearchResults\<close> fails (the embedding of the
  query, the extraction of a text, the batch embedding, or a similarity), the ranking
  fails with that step's own error, unchanged and unwrapped, and returns no list.
  Conversely, an error with which the ranking fails is the error of one of these four
  steps, and a list that is returned has one entry for every input result.
\<close>

theorem rank_error_is_step_error:
  "(results \<noteq> [] \<and> getEmbedding P query (useCache_of options) w = (Inl e, wq) \<longrightarrow>
      rankSearchResults P query results options w = (Inl e, wq)) \<and>
   (results \<noteq> [] \<and> getEmbedding P query (useCache_of options) w = (Inr qe, wq) \<and>
    map_sum extractTextContent results = Inl e \<longrightarrow>
      rankSearchResults P query results options w = (Inl e, wq)) \<and>
   (results \<noteq> [] \<and> getEmbedding P query (useCache_of options) w = (Inr qe, wq) \<and>
    map_sum extractTextContent results = Inr texts \<and>
    getEmbeddingsBatch P texts (useCache_of options) wq = (Inl e, wb) \<longrightarrow>
      rankSearchResults P query results options w = (Inl e, wb)) \<and>
   (results \<noteq> [] \<and> getEmbedding P query (useCache_of options) w = (Inr qe, wq) \<and>
    map_sum extractTextContent results = Inr texts \<and>
    getEmbeddingsBatch P texts (useCache_of options) wq = (Inr embs, wb) \<and>
    rank_results qe embs results = Inl e \<longrightarrow>
      rankSearchResults P query results options w = (Inl e, wb)) \<and>
   (rankSearchResults P query results options w = (Inl e, w') \<longrightarrow>
      results \<noteq> [] \<and>
      (getEmbedding P query (useCache_of options) w = (Inl e, w') \<or>
       (\<exists>qe. getEmbedding P query (useCache_of options) w = (Inr qe, w') \<and>
             map_sum extractTextContent results = Inl e) \<or>
       (\<exists>qe wq texts.
          getEmbedding P query (useCache_of options) w = (Inr qe, wq) \<and>
          map_sum extractTextContent results = Inr texts \<and>
          getEmbeddingsBatch P texts (useCache_of options) wq = (Inl e, w')) \<or>
       (\<exists>qe wq texts embs.
          getEmbedding P query (useCache_of options) w = (Inr qe, wq) \<and>
          map_sum extractTextContent results = Inr texts \<and>
          getEmbeddingsBatch P texts (useCache_of options) wq = (Inr embs, w') \<and>
          rank_results qe embs results = Inl e))) \<and>
   (rankSearchResults P query results options w = (Inr ranked, w') \<longrightarrow>
      length ranked = length results)"
proof (intro conjI impI)
  assume "results \<noteq> [] \<and> getEmbedding P query (useCache_of options) w = (Inl e, wq)"
  then show "rankSearchResults P query results options w = (Inl e, wq)"
    by (simp add: step_query_fails)
next
  assume "results \<noteq> [] \<and> getEmbedding P query (useCache_of options) w = (Inr qe, wq) \<and>
    map_sum extractTextContent results = Inl e"
  then show "rankSearchResults P query results options w = (Inl e, wq)"
    by (simp add: step_extract_fails)
next
  assume "results \<noteq> [] \<and> getEmbedding P query (useCache_of options) w = (Inr qe, wq) \<and>
    map_sum extractTextContent results = Inr texts \<and>
    getEmbeddingsBatch P texts (useCache_of options) wq = (Inl e, wb)"
  then show "rankSearchResults P query results options w = (Inl e, wb)"
    by (simp add: step_batch_fails)
next
  assume "results \<noteq> [] \<and> getEmbedding P query (useCache_of options) w = (Inr qe, wq) \<and>
    map_sum extractTextContent results = Inr texts \<and>
    getEmbeddingsBatch P texts (useCache_of options) wq = (Inr embs, wb) \<and>
    rank_results qe embs results = Inl e"
  then show "rankSearchResults P query results options w = (Inl e, wb)"
    by (simp add: step_similarity_fails)
next
  assume f: "rankSearchResults P query results options w = (Inl e, w')"
  from rank_error_origin [OF f] show "results \<noteq> []" by (rule conjunct1)
  from rank_error_origin [OF f] show
    "getEmbedding P query (useCache_of options) w = (Inl e, w') \<or>
       (\<exists>qe. getEmbedding P query (useCache_of options) w = (Inr qe, w') \<and>
             map_sum extractTextContent results = Inl e) \<or>
       (\<exists>qe wq texts.
          getEmbedding P query (useCache_of options) w = (Inr qe, wq) \<and>
          map_sum extractTextContent results = Inr texts \<and>
          getEmbeddingsBatch P texts (useCache_of options) wq = (Inl e, w')) \<or>
       (\<exists>qe wq texts embs.
          getEmbedding P query (useCache_of options) w = (Inr qe, wq) \<and>
          map_sum extractTextContent results = Inr texts \<and>
          getEmbeddingsBatch P texts (useCache_of options) wq = (Inr embs, w') \<and>
          rank_results qe embs results = Inl e)"
    by (rule conjunct2)
next
  assume "rankSearchResults P query results options w = (Inr ranked, w')"
  then show "length ranked = length results" by (rule rank_complete_list)
qed

lemma query_embedding_q:
  "getEmbedding stub_platform ''q'' False empty_world
     = (Inr [Fin 1, Fin 0], empty_world\<lparr>calls := [EmbeddingsCreate (Single ''q'')]\<rparr>)"
  by (simp add: engine_defs io_defs stub_defs)

lemma blank_query_embedding:
  "getEmbedding stub_platform ''  '' True empty_world = (Inl empty_text, empty_world)"
  by (simp add: getEmbedding_def throw_def trim_def is_ws_def)

lemma batch_down:
  "getEmbeddingsBatch stub_platform [''Title: down Description: s''] False
     (empty_world\<lparr>calls := [EmbeddingsCreate (Single ''q'')]\<rparr>)
   = (Inl endpoint_down,
      empty_world\<lparr>calls := [EmbeddingsCreate (Single ''q''),
                              EmbeddingsCreate (Batch [''Title: down Description: s''])]\<rparr>)"
  by (simp add: engine_defs io_defs stub_defs)

lemma batch_short:
  "getEmbeddingsBatch stub_platform [''Title: short Description: s''] False
     (empty_world\<lparr>calls := [EmbeddingsCreate (Single ''q'')]\<rparr>)
   = (Inr [Some [Fin 1]],
      empty_world\<lparr>calls := [EmbeddingsCreate (Single ''q''),
                              EmbeddingsCreate (Batch [''Title: short Description: s''])]\<rparr>)"
  by (simp add: engine_defs io_defs stub_defs)

theorem rank_error_is_step_error_witness:
  "rankSearchResults stub_platform ''  '' [result_of ''near''] None empty_world
     = (Inl empty_text, empty_world) \<and>
   rankSearchResults stub_platform ''q'' [\<lparr>title = ''t'', snippet = ''s'', pagemap = None\<rparr>]
       (Some False) empty_world
     = (Inl (TypeError_undefined ''metatags''),
        empty_world\<lparr>calls := [EmbeddingsCreate (Single ''q'')]\<rparr>) \<and>
   rankSearchResults stub_platform ''q'' [result_of ''down''] (Some False) empty_world
     = (Inl endpoint_down,
        empty_world\<lparr>calls := [EmbeddingsCreate (Single ''q''),
                                EmbeddingsCreate (Batch [''Title: down Description: s''])]\<rparr>) \<and>
   rankSearchResults stub_platform ''q'' [result_of ''short''] (Some False) empty_world
     = (Inl length_mismatch,
        empty_world\<lparr>calls := [EmbeddingsCreate (Single ''q''),
                                EmbeddingsCreate (Batch [''Title: short Description: s''])]\<rparr>) \<and>
   getEmbedding stub_platform ''  '' (useCache_of None) empty_world = (Inl empty_text, empty_world) \<and>
   length [with_similarity (result_of ''near'') (Fin 1), with_similarity (result_of ''far'') (Fin 0)]
     = length [result_of ''far'', result_of ''near'']"
proof -
  let ?wq = "empty_world\<lparr>calls := [EmbeddingsCreate (Single ''q'')]\<rparr>"
  let ?wdown = "empty_world\<lparr>calls := [EmbeddingsCreate (Single ''q''),
                                EmbeddingsCreate (Batch [''Title: down Description: s''])]\<rparr>"
  let ?wshort = "empty_world\<lparr>calls := [EmbeddingsCreate (Single ''q''),
                                EmbeddingsCreate (Batch [''Title: short Description: s''])]\<rparr>"
  have u: "useCache_of None = True" "useCache_of (Some False) = False"
    by (simp_all add: useCache_of_def)
  note blank_case = rank_error_is_step_error [where P = stub_platform and query = "''  ''"
      and results = "[result_of ''near'']" and options = None and w = empty_world
      and e = empty_text and wq = empty_world and w' = empty_world]
  note extract_case = rank_error_is_step_error [where P = stub_platform and query = "''q''"
      and results = "[\<lparr>title = ''t'', snippet = ''s'', pagemap = None\<rparr>]"
      and options = "Some False" and w = empty_world and qe = "[Fin 1, Fin 0]" and wq = ?wq
      and e = "TypeError_undefined ''metatags''"]
  note down_case = rank_error_is_step_error [where P = stub_platform and query = "''q''"
      and results = "[result_of ''down'']" and options = "Some False" and w = empty_world
      and qe = "[Fin 1, Fin 0]" and wq = ?wq and texts = "[''Title: down Description: s'']"
      and e = endpoint_down and wb = ?wdown]
  note short_case = rank_error_is_step_error [where P = stub_platform and query = "''q''"
      and results = "[result_of ''short'']" and options = "Some False" and w = empty_world
      and qe = "[Fin 1, Fin 0]" and wq = ?wq and texts = "[''Title: short Description: s'']"
      and embs = "[Some [Fin 1]]" and e = length_mismatch and wb = ?wshort]
  note ranked_case = rank_error_is_step_error [where P = stub_platform and query = "''q''"
      and results = "[result_of ''far'', result_of ''near'']" and options = "Some False"
      and w = empty_world]
  have r1: "rankSearchResults stub_platform ''  '' [result_of ''near''] None empty_world
     = (Inl empty_text, empty_world)"
    using blank_case [THEN conjunct1]
    by (simp add: u blank_query_embedding)
  have r2: "rankSearchResults stub_platform ''q'' [\<lparr>title = ''t'', snippet = ''s'', pagemap = None\<rparr>]
       (Some False) empty_world = (Inl (TypeError_undefined ''metatags''), ?wq)"
    using extract_case [THEN conjunct2, THEN conjunct1]
    by (simp add: u query_embedding_q extractTextContent_def)
  have r3: "rankSearchResults stub_platform ''q'' [result_of ''down''] (Some False) empty_world
     = (Inl endpoint_down, ?wdown)"
    using down_case [THEN conjunct2, THEN conjunct2, THEN conjunct1]
    by (simp add: u query_embedding_q batch_down extractTextContent_def result_of_def)
  have r4: "rankSearchResults stub_platform ''q'' [result_of ''short''] (Some False) empty_world
     = (Inl length_mismatch, ?wshort)"
    using short_case [THEN conjunct2, THEN conjunct2, THEN conjunct2, THEN conjunct1]
    by (simp add: u query_embedding_q batch_short extractTextContent_def result_of_def
        rank_results_def similarity_at_def nth_opt_def cosineSimilarity_def)
  have r5: "getEmbedding stub_platform ''  '' (useCache_of None) empty_world
              = (Inl empty_text, empty_world)"
    using blank_case [THEN conjunct2, THEN conjunct2, THEN conjunct2, THEN conjunct2,
        THEN conjunct1] r1
    by (simp add: u blank_query_embedding)
  have r6: "length [with_similarity (result_of ''near'') (Fin 1),
                    with_similarity (result_of ''far'') (Fin 0)]
              = length [result_of ''far'', result_of ''near'']"
    using ranked_case [THEN conjunct2, THEN conjunct2, THEN conjunct2, THEN conjunct2,
        THEN conjunct2] rank_far_near
    by simp
  from r1 r2 r3 r4 r5 r6 show ?thesis by (intro conjI)
qed

subsection \<open>Order of a ranking\<close>

lemma ranked_outcome:
  assumes "rank_results qe embs results = Inr rankedResults"
    and "ranked = array_sort by_similarity rankedResults"
  shows "length ranked = length results \<and>
         mset (map SearchResult.truncate ranked) = mset results \<and>
         (no_NaN ranked \<longrightarrow> non_increasing ranked)"
proof (intro conjI impI)
  show "length ranked = length results"
    using assms by (simp add: length_array_sort rank_results_length)
  have "mset (map SearchResult.truncate ranked) = image_mset SearchResult.truncate (mset ranked)"
    by simp
  also have "\<dots> = image_mset SearchResult.truncate (mset rankedResults)"
    using assms(2) by (simp add: mset_array_sort)
  also have "\<dots> = mset (map SearchResult.truncate rankedResults)"
    by simp
  also have "\<dots> = mset results"
    using assms(1) by (simp add: rank_results_truncate)
  finally show "mset (map SearchResult.truncate ranked) = mset results" .
  assume "no_NaN ranked"
  then show "non_increasing ranked"
    using assms(2) by (simp add: no_NaN_array_sort non_increasing_array_sort)
qed

lemma rank_mem_ranked:
  assumes "results \<noteq> []"
    and "rankSearchResults_mem P query results useCache_opt cache_opt w = ((Inr ranked, cache'), w')"
  shows "\<exists>qe embs rankedResults.
           rank_results qe embs results = Inr rankedResults \<and>
           ranked = array_sort by_similarity rankedResults"
  using assms
  by (auto simp: rankSearchResults_mem_def Let_def bind_io_def lift_sum_def ret_def
      split: prod.splits sum.splits)

lemma rank_null_vector:
  "rankSearchResults stub_platform ''q''
      [result_of ''far'', result_of ''null'', result_of ''near''] (Some False) empty_world
   = (Inr [with_similarity (result_of ''far'') (Fin 0), with_similarity (result_of ''null'') NaN,
           with_similarity (result_of ''near'') (Fin 1)],
      empty_world\<lparr>calls := [EmbeddingsCreate (Single ''q''),
        EmbeddingsCreate (Batch [''Title: far Description: s'', ''Title: null Description: s'',
          ''Title: near Description: s''])]\<rparr>)"
  by (simp add: engine_defs io_defs stub_defs SearchResult.extend_def)

text \<open>
  C2 as stated fails where an embedding is the zero vector: the similarity of that
  result is NaN, the comparator's value is NaN against every other result, and the
  similarities of the returned list are \<open>0\<close>, NaN, \<open>1\<close> in this order.
\<close>

theorem rank_order_counterexample:
  "fst (rankSearchResults stub_platform ''q''
      [result_of ''far'', result_of ''null'', result_of ''near''] (Some False) empty_world)
   = Inr [with_similarity (result_of ''far'') (Fin 0), with_similarity (result_of ''null'') NaN,
          with_similarity (result_of ''near'') (Fin 1)] \<and>
   \<not> non_increasing [with_similarity (result_of ''far'') (Fin 0),
          with_similarity (result_of ''null'') NaN, with_similarity (result_of ''near'') (Fin 1)] \<and>
   \<not> jsge (Fin 0) (Fin 1)"
  by (simp add: rank_null_vector non_increasing_def similarity_with_similarity)

text \<open>
  C2, amended. When no step fails, both engines return exactly as many ranked results
  as there are input results; dropping the similarity from the returned results gives
  the input results again, each as often as it occurs in the input; and the returned
  list is in non-increasing order of similarity provided that no similarity is NaN.
\<close>

theorem rank_sorted_permutation:
  "rankSearchResults P query results options w = (Inr ranked, w') \<or>
   rankSearchResults_mem P query results useCache_opt cache_opt w = ((Inr ranked, cache'), w') \<Longrightarrow>
   length ranked = length results \<and>
   mset (map SearchResult.truncate ranked) = mset results \<and>
   (no_NaN ranked \<longrightarrow> non_increasing ranked)"
proof (cases "results = []")
  case True
  assume "rankSearchResults P query results options w = (Inr ranked, w') \<or>
    rankSearchResults_mem P query results useCache_opt cache_opt w = ((Inr ranked, cache'), w')"
  with True have "ranked = []"
    by (auto simp: rankSearchResults_def rankSearchResults_mem_def ret_def)
  with True show ?thesis by (simp add: non_increasing_def)
next
  case False
  assume "rankSearchResults P query results options w = (Inr ranked, w') \<or>
    rankSearchResults_mem P query results useCache_opt cache_opt w = ((Inr ranked, cache'), w')"
  then show ?thesis
  proof
    assume "rankSearchResults P query results options w = (Inr ranked, w')"
    with False show ?thesis
    proof (cases rule: rank_cases)
      case (ranked qe w1 texts embs rr)
      from ranked(5) have "ranked = array_sort by_similarity rr" by simp
      with ranked(4) show ?thesis by (rule ranked_outcome)
    qed simp_all
  next
    assume "rankSearchResults_mem P query results useCache_opt cache_opt w = ((Inr ranked, cache'), w')"
    with False obtain qe embs rankedResults where
      "rank_results qe embs results = Inr rankedResults"
      "ranked = array_sort by_similarity rankedResults"
      using rank_mem_ranked by blast
    then show ?thesis by (rule ranked_outcome)
  qed
qed

theorem rank_sorted_permutation_witness:
  "rankSearchResults stub_platform ''q'' [result_of ''far'', result_of ''near''] (Some False) empty_world
     = (Inr [with_similarity (result_of ''near'') (Fin 1), with_similarity (result_of ''far'') (Fin 0)],
        empty_world\<lparr>calls := [EmbeddingsCreate (Single ''q''),
          EmbeddingsCreate (Batch [''Title: far Description: s'', ''Title: near Description: s''])]\<rparr>) \<and>
   mset (map SearchResult.truncate
          [with_similarity (result_of ''near'') (Fin 1), with_similarity (result_of ''far'') (Fin 0)])
     = mset [result_of ''far'', result_of ''near''] \<and>
   no_NaN [with_similarity (result_of ''near'') (Fin 1), with_similarity (result_of ''far'') (Fin 0)] \<and>
   non_increasing [with_similarity (result_of ''near'') (Fin 1), with_similarity (result_of ''far'') (Fin 0)]"
proof -
  have n: "no_NaN [with_similarity (result_of ''near'') (Fin 1), with_similarity (result_of ''far'') (Fin 0)]"
    by (simp add: no_NaN_def similarity_with_similarity)
  from rank_sorted_permutation [OF disjI1 [OF rank_far_near]] n rank_far_near
  show ?thesis by blast
qed

subsection \<open>The cache behind a connected client\<close>

lemma getCachedEmbedding_connected:
  "isConnected w \<Longrightarrow>
   getCachedEmbedding P text w = (Inr (cache_lookup P w text), log_call (cache_read P text) w)"
  by (auto simp: getCachedEmbedding_def getRedisClient_def redis_get_def bind_io_def catch_io_def
      ret_def lift_sum_def cache_lookup_def cache_read_def Let_def split: option.splits sum.splits)

lemma setCachedEmbedding_connected:
  "isConnected w \<Longrightarrow>
   fst (setCachedEmbedding P text embedding w) = Inr () \<and>
   isConnected (snd (setCachedEmbedding P text embedding w)) \<and>
   calls (snd (setCachedEmbedding P text embedding w)) = calls w @ [cache_write P text embedding]"
  by (auto simp: setCachedEmbedding_def getRedisClient_def redis_setEx_def bind_io_def catch_io_def
      ret_def log_call_def cache_write_def Let_def split: option.splits)

lemma cache_lookup_calls [simp]: "cache_lookup P (w\<lparr>calls := cs\<rparr>) = cache_lookup P w"
  by (auto simp: cache_lookup_def fun_eq_iff split: option.splits)

lemma promise_all_getCached:
  "isConnected w \<Longrightarrow>
   promise_all (getCachedEmbedding P) texts w =
     (Inr (map (cache_lookup P w) texts), w\<lparr>calls := calls w @ map (cache_read P) texts\<rparr>)"
proof (induction texts arbitrary: w)
  case Nil
  then show ?case by (simp add: ret_def)
next
  case (Cons t ts)
  have c: "isConnected (log_call (cache_read P t) w)"
    using Cons.prems by (simp add: log_call_def)
  show ?case
    using Cons.prems Cons.IH [OF c]
    by (simp add: getCachedEmbedding_connected log_call_def)
qed

lemma promise_all_setCached:
  "isConnected w \<Longrightarrow>
   \<not> isl (fst (promise_all (\<lambda>(text, i). setCachedEmbedding P text (g i)) xs w)) \<and>
   isConnected (snd (promise_all (\<lambda>(text, i). setCachedEmbedding P text (g i)) xs w)) \<and>
   calls (snd (promise_all (\<lambda>(text, i). setCachedEmbedding P text (g i)) xs w)) =
     calls w @ map (\<lambda>(text, i). cache_write P text (g i)) xs"
proof (induction xs arbitrary: w)
  case Nil
  then show ?case by (simp add: ret_def)
next
  case (Cons x xs)
  obtain t i where x: "x = (t, i)" by (cases x)
  obtain r1 w1 where s: "setCachedEmbedding P t (g i) w = (r1, w1)"
    by (cases "setCachedEmbedding P t (g i) w")
  from setCachedEmbedding_connected [OF Cons.prems, of P t "g i"] s
  have r1: "r1 = Inr ()" and c1: "isConnected w1"
    and l1: "calls w1 = calls w @ [cache_write P t (g i)]" by simp_all
  obtain rs w2 where p: "promise_all (\<lambda>(text, i). setCachedEmbedding P text (g i)) xs w1 = (rs, w2)"
    by (cases "promise_all (\<lambda>(text, i). setCachedEmbedding P text (g i)) xs w1")
  from Cons.IH [OF c1] p
  have rs: "\<not> isl rs" and c2: "isConnected w2"
    and l2: "calls w2 = calls w1 @ map (\<lambda>(text, i). cache_write P text (g i)) xs" by simp_all
  from rs obtain us where us: "rs = Inr us" by (cases rs) simp_all
  show ?case
    by (simp add: x s r1 p us c2 l2 l1)
qed

subsection \<open>Splicing fresh vectors into place\<close>

lemma fold_update:
  assumes "length idx = length js" and "distinct idx" and "\<forall>i \<in> set idx. i < length embs"
  shows "length (fold (\<lambda>(originalIndex, i) embs. embs[originalIndex := g i]) (zip idx js) embs)
           = length embs \<and>
         (\<forall>i. i \<notin> set idx \<longrightarrow>
            fold (\<lambda>(originalIndex, i) embs. embs[originalIndex := g i]) (zip idx js) embs ! i
              = embs ! i) \<and>
         (\<forall>j < length idx.
            fold (\<lambda>(originalIndex, i) embs. embs[originalIndex := g i]) (zip idx js) embs ! (idx ! j)
              = g (js ! j))"
  using assms
proof (induction idx js arbitrary: embs rule: list_induct2)
  case Nil
  then show ?case by simp
next
  case (Cons a idx b js)
  let ?F = "\<lambda>e. fold (\<lambda>(originalIndex, i) embs. embs[originalIndex := g i]) (zip idx js) e"
  have d: "distinct idx" and a: "a \<notin> set idx" and al: "a < length embs"
    using Cons.prems by simp_all
  have b: "\<forall>i \<in> set idx. i < length (embs[a := g b])"
    using Cons.prems by simp
  note IH = Cons.IH [OF d b]
  have len: "length (?F (embs[a := g b])) = length embs" using IH by simp
  have out: "\<And>i. i \<notin> set idx \<Longrightarrow> ?F (embs[a := g b]) ! i = embs[a := g b] ! i"
    using IH by blast
  have inn: "\<And>j. j < length idx \<Longrightarrow> ?F (embs[a := g b]) ! (idx ! j) = g (js ! j)"
    using IH by blast
  have "\<forall>j < length (a # idx). ?F (embs[a := g b]) ! ((a # idx) ! j) = g ((b # js) ! j)"
  proof (intro allI impI)
    fix j assume "j < length (a # idx)"
    then show "?F (embs[a := g b]) ! ((a # idx) ! j) = g ((b # js) ! j)"
      using out [OF a] al inn by (cases j) simp_all
  qed
  moreover have "\<forall>i. i \<notin> set (a # idx) \<longrightarrow> ?F (embs[a := g b]) ! i = embs ! i"
    using out by simp
  ultimately show ?case using len by simp
qed

lemma fill_fresh_spliced:
  assumes "distinct idx" and "\<forall>i \<in> set idx. i < length embs"
  shows "length (fill_fresh embs idx fresh) = length embs"
    and "i \<notin> set idx \<Longrightarrow> fill_fresh embs idx fresh ! i = embs ! i"
    and "j < length idx \<Longrightarrow> fill_fresh embs idx fresh ! (idx ! j) = nth_opt fresh j"
proof -
  have l: "length idx = length [0..<length idx]" by simp
  note f = fold_update [OF l assms, of "nth_opt fresh"]
  show "length (fill_fresh embs idx fresh) = length embs"
    using f by (simp add: fill_fresh_def)
  show "i \<notin> set idx \<Longrightarrow> fill_fresh embs idx fresh ! i = embs ! i"
    using f by (simp add: fill_fresh_def)
  show "j < length idx \<Longrightarrow> fill_fresh embs idx fresh ! (idx ! j) = nth_opt fresh j"
    using f by (simp add: fill_fresh_def)
qed

lemma miss_indices_props:
  "distinct (miss_indices P w texts)"
  "\<forall>i \<in> set (miss_indices P w texts). i < length texts"
  "i < length texts \<Longrightarrow> i \<notin> set (miss_indices P w texts) \<longleftrightarrow> cache_lookup P w (texts ! i) \<noteq> None"
  by (auto simp: miss_indices_def)

lemma uncached_indices:
  "filter (\<lambda>index. map (cache_lookup P w) texts ! index = None)
      [0..<length texts] = miss_indices P w texts"
  unfolding miss_indices_def by (rule filter_cong) simp_all

lemma getBatchEmbeddingsFromAPI_run:
  "getBatchEmbeddingsFromAPI P texts w =
     (provider_batch P texts, log_call (EmbeddingsCreate (Batch texts)) w)"
  by (simp add: getBatchEmbeddingsFromAPI_def bind_io_def openai_create_def lift_sum_def
      provider_batch_def split: sum.splits)

text \<open>The state after the cache reads of a batch.\<close>

lemma getEmbeddingsBatch_connected:
  assumes "isConnected w"
  shows "getEmbeddingsBatch P texts True w =
    (if missed_texts P w texts = []
     then (Inr (map (cache_lookup P w) texts), w\<lparr>calls := calls w @ map (cache_read P) texts\<rparr>)
     else (case provider_batch P (missed_texts P w texts) of
             Inl e \<Rightarrow>
               (Inl e, log_call (EmbeddingsCreate (Batch (missed_texts P w texts)))
                         (w\<lparr>calls := calls w @ map (cache_read P) texts\<rparr>))
           | Inr fresh \<Rightarrow>
               (Inr (fill_fresh (map (cache_lookup P w) texts) (miss_indices P w texts) fresh),
                snd (promise_all (\<lambda>(text, i). setCachedEmbedding P text (nth_opt fresh i))
                       (zip (missed_texts P w texts) [0..<length (missed_texts P w texts)])
                       (log_call (EmbeddingsCreate (Batch (missed_texts P w texts)))
                          (w\<lparr>calls := calls w @ map (cache_read P) texts\<rparr>))))))"
proof -
  let ?w1 = "w\<lparr>calls := calls w @ map (cache_read P) texts\<rparr>"
  let ?m = "missed_texts P w texts"
  let ?w2 = "log_call (EmbeddingsCreate (Batch ?m)) ?w1"
  have c2: "isConnected ?w2" using assms by (simp add: log_call_def)
  have u: "map (\<lambda>index. texts ! index) (miss_indices P w texts) = ?m"
    by (simp add: missed_texts_def)
  show ?thesis
  proof (cases "?m = []")
    case True
    then show ?thesis
      using u by (simp add: getEmbeddingsBatch_def bind_io_def promise_all_getCached [OF assms]
          uncached_indices Let_def ret_def del: map_is_Nil_conv)
  next
    case False
    then have mi: "miss_indices P w texts \<noteq> []" by (simp add: missed_texts_def)
    show ?thesis
    proof (cases "provider_batch P ?m")
      case (Inl e)
      with False show ?thesis
        using u mi by (simp add: getEmbeddingsBatch_def bind_io_def promise_all_getCached [OF assms]
            uncached_indices Let_def getBatchEmbeddingsFromAPI_run del: map_is_Nil_conv)
    next
      case (Inr fresh)
      obtain rs w3 where p: "promise_all (\<lambda>(text, i). setCachedEmbedding P text (nth_opt fresh i))
          (zip ?m [0..<length ?m]) ?w2 = (rs, w3)"
        by (cases "promise_all (\<lambda>(text, i). setCachedEmbedding P text (nth_opt fresh i))
          (zip ?m [0..<length ?m]) ?w2")
      from promise_all_setCached [OF c2, of P "nth_opt fresh" "zip ?m [0..<length ?m]"] p
      obtain us where us: "rs = Inr us" by (cases rs) simp_all
      from False Inr p us show ?thesis
        using u mi by (simp add: getEmbeddingsBatch_def bind_io_def promise_all_getCached [OF assms]
            uncached_indices Let_def getBatchEmbeddingsFromAPI_run ret_def del: map_is_Nil_conv)
    qed
  qed
qed

subsection \<open>Where errors come from\<close>

lemma provider_error_raised: "embeddings_create P inp = Inl e \<Longrightarrow> raised_by_engine P e"
  unfolding raised_by_engine_def by (metis rangeI)

lemma batch_items_error: "batch_items data = Inl e \<Longrightarrow> e = missing_embedding"
  by (induction data rule: batch_items.induct) (auto split: sum.splits)

lemma provider_batch_error: "provider_batch P texts = Inl e \<Longrightarrow> raised_by_engine P e"
proof (cases "embeddings_create P (Batch texts)")
  case (Inl e')
  assume "provider_batch P texts = Inl e"
  with Inl have "e' = e" by (simp add: provider_batch_def)
  with Inl show ?thesis by (simp add: provider_error_raised)
next
  case (Inr data)
  assume "provider_batch P texts = Inl e"
  with Inr have "batch_items data = Inl e" by (simp add: provider_batch_def)
  then have "e = missing_embedding" by (rule batch_items_error)
  then show ?thesis by (simp add: raised_by_engine_def)
qed

lemma setCachedEmbedding_result:
  "setCachedEmbedding P text embedding w = (r, w') \<Longrightarrow> isConnected w \<Longrightarrow>
   r = Inr () \<and> isConnected w'"
  using setCachedEmbedding_connected [of w P "text" embedding] by simp

lemma getEmbedding_connected:
  assumes "isConnected w" and "getEmbedding P text useCache w = (r, w1)"
  shows "isConnected w1 \<and> (\<forall>e. r = Inl e \<longrightarrow> raised_by_engine P e)"
proof (cases "text = [] \<or> length (trim text) = 0")
  case True
  with assms show ?thesis
    by (auto simp: getEmbedding_def throw_def raised_by_engine_def)
next
  case False
  let ?w0 = "if useCache then log_call (cache_read P text) w else w"
  let ?c = "if useCache then cache_lookup P w text else None"
  have c0: "isConnected ?w0" using assms(1) by (simp add: log_call_def)
  have first: "(if useCache then getCachedEmbedding P text else ret None) w = (Inr ?c, ?w0)"
    using assms(1) by (simp add: getCachedEmbedding_connected ret_def)
  show ?thesis
  proof (cases ?c)
    case (Some v)
    with False first assms(2) c0 show ?thesis
      by (auto simp: getEmbedding_def bind_io_def ret_def)
  next
    case None
    let ?w2 = "log_call (EmbeddingsCreate (Single text)) ?w0"
    have c2: "isConnected ?w2" using c0 by (simp add: log_call_def)
    show ?thesis
    proof (cases "embeddings_create P (Single text)")
      case (Inl e)
      with False first None assms(2) have "r = Inl e" "w1 = ?w2"
        by (auto simp: getEmbedding_def bind_io_def openai_create_def)
      with c2 Inl show ?thesis by (simp add: provider_error_raised)
    next
      case (Inr data)
      show ?thesis
      proof (cases "first_embedding data")
        case n: None
        with False first None Inr assms(2) have "r = Inl no_embedding" "w1 = ?w2"
          by (auto simp: getEmbedding_def bind_io_def openai_create_def throw_def)
        with c2 show ?thesis by (simp add: raised_by_engine_def)
      next
        case (Some embedding)
        show ?thesis
        proof (cases useCache)
          case True
          obtain r3 w3 where s: "setCachedEmbedding P text (Some embedding) ?w2 = (r3, w3)"
            by (cases "setCachedEmbedding P text (Some embedding) ?w2")
          from setCachedEmbedding_result [OF s c2] have r3: "r3 = Inr ()" and c3: "isConnected w3"
            by simp_all
          from False first None Inr Some True s r3 assms(2) have "r = Inr embedding" "w1 = w3"
            by (auto simp: getEmbedding_def bind_io_def openai_create_def ret_def)
          with c3 show ?thesis by simp
        next
          case f: False
          from False first None Inr Some f assms(2) have "r = Inr embedding" "w1 = ?w2"
            by (auto simp: getEmbedding_def bind_io_def openai_create_def ret_def)
          with c2 show ?thesis by simp
        qed
      qed
    qed
  qed
qed

lemma getEmbeddingsBatch_error:
  assumes "isConnected w" and "getEmbeddingsBatch P texts useCache w = (Inl e, w1)"
  shows "raised_by_engine P e"
proof (cases useCache)
  case True
  with assms(2) have "getEmbeddingsBatch P texts True w = (Inl e, w1)" by simp
  then have "provider_batch P (missed_texts P w texts) = Inl e"
    unfolding getEmbeddingsBatch_connected [OF assms(1)]
    by (auto split: if_splits sum.splits)
  then show ?thesis by (rule provider_batch_error)
next
  case False
  with assms(2) have "provider_batch P texts = Inl e"
    by (auto simp: getEmbeddingsBatch_def bind_io_def getBatchEmbeddingsFromAPI_run ret_def
        split: sum.splits)
  then show ?thesis by (rule provider_batch_error)
qed

lemma rank_error_raised:
  assumes "isConnected w" and "rankSearchResults P query results options w = (Inl e, w')"
  shows "raised_by_engine P e"
proof -
  have ne: "results \<noteq> []"
    using assms(2) by (auto simp: rankSearchResults_def ret_def)
  from ne assms(2) show ?thesis
  proof (cases rule: rank_cases)
    case (query_fails e')
    with getEmbedding_connected [OF assms(1) query_fails(1)] show ?thesis by simp
  next
    case (extract_fails qe e')
    then show ?thesis by (auto dest!: extract_error simp: raised_by_engine_def)
  next
    case (batch_fails qe w1 texts e')
    from getEmbedding_connected [OF assms(1) batch_fails(1)] have "isConnected w1" by simp
    from getEmbeddingsBatch_error [OF this batch_fails(3)] batch_fails(4) show ?thesis by simp
  next
    case (similarity_fails qe w1 texts embs e')
    then show ?thesis by (auto dest!: rank_results_error simp: raised_by_engine_def)
  next
    case (ranked qe w1 texts embs rankedResults)
    then show ?thesis by simp
  qed
qed

subsection \<open>Cache failures\<close>

lemma rank_offline:
  "rankSearchResults stub_platform ''q'' [result_of ''near''] None offline_world
     = (Inl redis_not_connected, offline_world)"
  by (simp add: engine_defs io_defs stub_defs Let_def)

text \<open>
  C3 as stated fails for a client that is not connected: \<open>getRedisClient\<close> throws
  outside the \<open>try\<close> blocks of the cache functions, and the error reaches the caller of
  the ranking.
\<close>

theorem cache_failure_counterexample:
  "useCache_of None \<and> \<not> isConnected offline_world \<and>
   rankSearchResults stub_platform ''q'' [result_of ''near''] None offline_world
     = (Inl redis_not_connected, offline_world)"
proof -
  have "\<not> isConnected offline_world"
    by (simp add: offline_world_def empty_world_def)
  then show ?thesis
    by (simp add: rank_offline useCache_of_def)
qed

lemma lookup_miss:
  "get_fault w (generateEmbeddingCacheKey P t) \<noteq> None \<or> kv w (generateEmbeddingCacheKey P t) = None
   \<Longrightarrow> cache_lookup P w t = None"
  by (auto simp: cache_lookup_def parse_cached_def split: option.splits)

lemma getEmbedding_not_connected:
  "\<not> isConnected w \<Longrightarrow> \<not> blank text \<Longrightarrow>
   getEmbedding P text True w = (Inl redis_not_connected, w)"
proof -
  assume c: "\<not> isConnected w" and b: "\<not> blank text"
  from b have "text \<noteq> []" "length (trim text) \<noteq> 0"
    by (auto simp: blank_def trim_def)
  with c show ?thesis
    by (simp add: getEmbedding_def getCachedEmbedding_def getRedisClient_def bind_io_def)
qed

lemma rank_not_connected:
  "\<not> isConnected w \<Longrightarrow> useCache_of options \<Longrightarrow> \<not> blank query \<Longrightarrow> results \<noteq> [] \<Longrightarrow>
   rankSearchResults P query results options w = (Inl redis_not_connected, w)"
  by (simp add: rank_nonempty bind_io_def getEmbedding_not_connected)

text \<open>
  C3, amended. With the Redis client connected (\<open>initRedis\<close> has run), a cache read
  that rejects gives the same outcome as a read that finds no entry, namely a miss; a
  cache write always completes normally, whether \<open>setEx\<close> rejects or not; and an error
  with which the ranking fails is one that the engine raised itself or that the
  embeddings endpoint answered, never one of the cache. With the client not connected,
  caching enabled, a query that is not blank and a list of results that is not empty,
  the ranking fails with the error of \<open>getRedisClient\<close> and leaves the state as it was.
\<close>

theorem cache_failures_absorbed:
  "(isConnected w \<longrightarrow>
      (get_fault w (generateEmbeddingCacheKey P t) \<noteq> None \<or>
       kv w (generateEmbeddingCacheKey P t) = None \<longrightarrow>
         getCachedEmbedding P t w = (Inr None, log_call (cache_read P t) w)) \<and>
      fst (setCachedEmbedding P t embedding w) = Inr () \<and>
      (rankSearchResults P query results options w = (Inl e, w') \<longrightarrow> raised_by_engine P e)) \<and>
   (\<not> isConnected w \<and> useCache_of options \<and> \<not> blank query \<and> results \<noteq> [] \<longrightarrow>
      rankSearchResults P query results options w = (Inl redis_not_connected, w))"
proof (intro conjI impI)
  assume c: "isConnected w"
  show "fst (setCachedEmbedding P t embedding w) = Inr ()"
    using c by (simp add: setCachedEmbedding_connected)
  {
    assume "get_fault w (generateEmbeddingCacheKey P t) \<noteq> None \<or>
       kv w (generateEmbeddingCacheKey P t) = None"
    then show "getCachedEmbedding P t w = (Inr None, log_call (cache_read P t) w)"
      using c by (simp add: getCachedEmbedding_connected lookup_miss)
  }
  {
    assume "rankSearchResults P query results options w = (Inl e, w')"
    with c show "raised_by_engine P e" by (rule rank_error_raised)
  }
next
  assume "\<not> isConnected w \<and> useCache_of options \<and> \<not> blank query \<and> results \<noteq> []"
  then show "rankSearchResults P query results options w = (Inl redis_not_connected, w)"
    by (simp add: rank_not_connected)
qed

lemma rank_faulty_cache:
  "fst (rankSearchResults stub_platform ''q'' [result_of ''far'', result_of ''near''] None faulty_world)
     = Inr [with_similarity (result_of ''near'') (Fin 1), with_similarity (result_of ''far'') (Fin 0)]"
  by (simp add: engine_defs io_defs stub_defs SearchResult.extend_def Let_def)

lemma rank_blank_query_faulty:
  "rankSearchResults stub_platform ''  '' [result_of ''near''] None faulty_world
     = (Inl empty_text, faulty_world)"
  by (simp add: engine_defs io_defs stub_defs Let_def)

theorem cache_failures_absorbed_witness:
  "isConnected faulty_world \<and>
   get_fault faulty_world (generateEmbeddingCacheKey stub_platform ''q'') \<noteq> None \<and>
   getCachedEmbedding stub_platform ''q'' faulty_world
     = (Inr None, log_call (cache_read stub_platform ''q'') faulty_world) \<and>
   fst (setCachedEmbedding stub_platform ''q'' (Some [Fin 1, Fin 0]) faulty_world) = Inr () \<and>
   rankSearchResults stub_platform ''  '' [result_of ''near''] None faulty_world
     = (Inl empty_text, faulty_world) \<and>
   raised_by_engine stub_platform empty_text \<and>
   fst (rankSearchResults stub_platform ''q'' [result_of ''far'', result_of ''near''] None faulty_world)
     = Inr [with_similarity (result_of ''near'') (Fin 1), with_similarity (result_of ''far'') (Fin 0)] \<and>
   \<not> isConnected offline_world \<and> useCache_of None \<and> \<not> blank ''q'' \<and>
   rankSearchResults stub_platform ''q'' [result_of ''near''] None offline_world
     = (Inl redis_not_connected, offline_world)"
proof -
  have c: "isConnected faulty_world"
    by (simp add: faulty_world_def empty_world_def)
  have g: "get_fault faulty_world (generateEmbeddingCacheKey stub_platform ''q'') \<noteq> None"
    by (simp add: faulty_world_def empty_world_def)
  have o: "\<not> isConnected offline_world"
    by (simp add: offline_world_def empty_world_def)
  have u: "useCache_of None" by (simp add: useCache_of_def)
  have b: "\<not> blank ''q''" by (simp add: blank_def trim_def is_ws_def)
  note connected_case = cache_failures_absorbed [where w = faulty_world and P = stub_platform
      and t = "''q''" and embedding = "Some [Fin 1, Fin 0]" and query = "''  ''"
      and results = "[result_of ''near'']" and options = None and e = empty_text
      and w' = faulty_world]
  note offline_case = cache_failures_absorbed [where w = offline_world and P = stub_platform
      and query = "''q''" and results = "[result_of ''near'']" and options = None]
  have connected:
    "getCachedEmbedding stub_platform ''q'' faulty_world
       = (Inr None, log_call (cache_read stub_platform ''q'') faulty_world) \<and>
     fst (setCachedEmbedding stub_platform ''q'' (Some [Fin 1, Fin 0]) faulty_world) = Inr () \<and>
     raised_by_engine stub_platform empty_text"
    using connected_case [THEN conjunct1] c g rank_blank_query_faulty
    by simp
  have offline:
    "rankSearchResults stub_platform ''q'' [result_of ''near''] None offline_world
       = (Inl redis_not_connected, offline_world)"
    using offline_case [THEN conjunct2] o u b
    by simp
  from c g connected rank_blank_query_faulty rank_faulty_cache o u b offline
  show ?thesis by (intro conjI) simp_all
qed

subsection \<open>Batch reconciliation\<close>

lemma no_provider_call_in_reads: "filter is_provider_call (map (cache_read P) texts) = []"
  by (induction texts) (simp_all add: cache_read_def)

lemma no_provider_call_in_writes:
  "filter is_provider_call (map (\<lambda>(text, i). cache_write P text (g i)) xs) = []"
  by (induction xs) (auto simp: cache_write_def)

lemma calls_after_batch:
  assumes "isConnected w"
  shows "calls (snd (getEmbeddingsBatch P texts True w)) =
     calls w @ map (cache_read P) texts @
     (if missed_texts P w texts = [] then []
      else EmbeddingsCreate (Batch (missed_texts P w texts)) #
           (case provider_batch P (missed_texts P w texts) of
              Inl e \<Rightarrow> []
            | Inr fresh \<Rightarrow>
                map (\<lambda>(text, i). cache_write P text (nth_opt fresh i))
                  (zip (missed_texts P w texts) [0..<length (missed_texts P w texts)])))"
proof (cases "missed_texts P w texts = []")
  case True
  then show ?thesis
    by (simp add: getEmbeddingsBatch_connected [OF assms])
next
  case False
  let ?m = "missed_texts P w texts"
  let ?w2 = "log_call (EmbeddingsCreate (Batch ?m))
               (w\<lparr>calls := calls w @ map (cache_read P) texts\<rparr>)"
  have c2: "isConnected ?w2" using assms by (simp add: log_call_def)
  have l2: "calls ?w2 = calls w @ map (cache_read P) texts @ [EmbeddingsCreate (Batch ?m)]"
    by (simp add: log_call_def)
  show ?thesis
  proof (cases "provider_batch P ?m")
    case (Inl e)
    with False l2 show ?thesis
      by (simp add: getEmbeddingsBatch_connected [OF assms])
  next
    case (Inr fresh)
    from promise_all_setCached [OF c2, of P "nth_opt fresh" "zip ?m [0..<length ?m]"]
    have "calls (snd (promise_all (\<lambda>(text, i). setCachedEmbedding P text (nth_opt fresh i))
                   (zip ?m [0..<length ?m]) ?w2))
          = calls ?w2 @ map (\<lambda>(text, i). cache_write P text (nth_opt fresh i))
                          (zip ?m [0..<length ?m])"
      by blast
    with False Inr l2 show ?thesis
      by (simp add: getEmbeddingsBatch_connected [OF assms])
  qed
qed

lemma spliced_embeddings:
  shows "length (fill_fresh (map (cache_lookup P w) texts) (miss_indices P w texts) fresh)
           = length texts"
    and "i < length texts \<Longrightarrow> cache_lookup P w (texts ! i) \<noteq> None \<Longrightarrow>
         fill_fresh (map (cache_lookup P w) texts) (miss_indices P w texts) fresh ! i
           = cache_lookup P w (texts ! i)"
    and "j < length (miss_indices P w texts) \<Longrightarrow>
         fill_fresh (map (cache_lookup P w) texts) (miss_indices P w texts) fresh
           ! (miss_indices P w texts ! j) = nth_opt fresh j"
proof -
  have d: "distinct (miss_indices P w texts)"
    and b: "\<forall>i \<in> set (miss_indices P w texts). i < length (map (cache_lookup P w) texts)"
    by (simp_all add: miss_indices_props)
  note f = fill_fresh_spliced [OF d b]
  show "length (fill_fresh (map (cache_lookup P w) texts) (miss_indices P w texts) fresh)
           = length texts"
    using f(1) by simp
  show "i < length texts \<Longrightarrow> cache_lookup P w (texts ! i) \<noteq> None \<Longrightarrow>
         fill_fresh (map (cache_lookup P w) texts) (miss_indices P w texts) fresh ! i
           = cache_lookup P w (texts ! i)"
    using f(2) [of i fresh] by (simp add: miss_indices_props(3))
  show "j < length (miss_indices P w texts) \<Longrightarrow>
         fill_fresh (map (cache_lookup P w) texts) (miss_indices P w texts) fresh
           ! (miss_indices P w texts ! j) = nth_opt fresh j"
    using f(3) by simp
qed

text \<open>
  C1. With caching enabled and the client connected, \<open>getEmbeddingsBatch\<close> reads the
  cache once for every text, in order. When no text is a miss it makes no request to
  the endpoint and returns the cached vectors. Otherwise it makes exactly one request,
  a batch of the missed texts only; when the endpoint answers, the \<open>i\<close>-th fresh vector
  is written to the cache under the \<open>i\<close>-th missed text and put at the index of that
  text, the cached vectors stay at their indices, and the returned array is as long as
  the list of texts.
\<close>

theorem batch_reconciliation:
  assumes "isConnected w"
  shows
    "calls (snd (getEmbeddingsBatch P texts True w)) =
       calls w @ map (cache_read P) texts @
       (if missed_texts P w texts = [] then []
        else EmbeddingsCreate (Batch (missed_texts P w texts)) #
             (case provider_batch P (missed_texts P w texts) of
                Inl e \<Rightarrow> []
              | Inr fresh \<Rightarrow>
                  map (\<lambda>(text, i). cache_write P text (nth_opt fresh i))
                    (zip (missed_texts P w texts) [0..<length (missed_texts P w texts)]))) \<and>
     filter is_provider_call (drop (length (calls w)) (calls (snd (getEmbeddingsBatch P texts True w))))
       = (if missed_texts P w texts = [] then []
          else [EmbeddingsCreate (Batch (missed_texts P w texts))]) \<and>
     (missed_texts P w texts = [] \<longrightarrow>
        fst (getEmbeddingsBatch P texts True w) = Inr (map (cache_lookup P w) texts)) \<and>
     (missed_texts P w texts \<noteq> [] \<and> provider_batch P (missed_texts P w texts) = Inl e \<longrightarrow>
        fst (getEmbeddingsBatch P texts True w) = Inl e) \<and>
     (missed_texts P w texts \<noteq> [] \<and> provider_batch P (missed_texts P w texts) = Inr fresh \<longrightarrow>
        (\<exists>embeddings.
           fst (getEmbeddingsBatch P texts True w) = Inr embeddings \<and>
           length embeddings = length texts \<and>
           (\<forall>i < length texts. cache_lookup P w (texts ! i) \<noteq> None \<longrightarrow>
              embeddings ! i = cache_lookup P w (texts ! i)) \<and>
           (\<forall>j < length (miss_indices P w texts).
              embeddings ! (miss_indices P w texts ! j) = nth_opt fresh j)))"
proof (intro conjI impI)
  show "calls (snd (getEmbeddingsBatch P texts True w)) =
       calls w @ map (cache_read P) texts @
       (if missed_texts P w texts = [] then []
        else EmbeddingsCreate (Batch (missed_texts P w texts)) #
             (case provider_batch P (missed_texts P w texts) of
                Inl e \<Rightarrow> []
              | Inr fresh \<Rightarrow>
                  map (\<lambda>(text, i). cache_write P text (nth_opt fresh i))
                    (zip (missed_texts P w texts) [0..<length (missed_texts P w texts)])))"
    by (rule calls_after_batch [OF assms])
  show "filter is_provider_call
          (drop (length (calls w)) (calls (snd (getEmbeddingsBatch P texts True w))))
       = (if missed_texts P w texts = [] then []
          else [EmbeddingsCreate (Batch (missed_texts P w texts))])"
    unfolding calls_after_batch [OF assms]
    by (simp add: no_provider_call_in_reads no_provider_call_in_writes split: sum.splits)
next
  assume "missed_texts P w texts = []"
  then show "fst (getEmbeddingsBatch P texts True w) = Inr (map (cache_lookup P w) texts)"
    by (simp add: getEmbeddingsBatch_connected [OF assms])
next
  assume "missed_texts P w texts \<noteq> [] \<and> provider_batch P (missed_texts P w texts) = Inl e"
  then show "fst (getEmbeddingsBatch P texts True w) = Inl e"
    by (simp add: getEmbeddingsBatch_connected [OF assms])
next
  assume "missed_texts P w texts \<noteq> [] \<and> provider_batch P (missed_texts P w texts) = Inr fresh"
  then have "fst (getEmbeddingsBatch P texts True w) =
      Inr (fill_fresh (map (cache_lookup P w) texts) (miss_indices P w texts) fresh)"
    by (simp add: getEmbeddingsBatch_connected [OF assms])
  then show "\<exists>embeddings.
           fst (getEmbeddingsBatch P texts True w) = Inr embeddings \<and>
           length embeddings = length texts \<and>
           (\<forall>i < length texts. cache_lookup P w (texts ! i) \<noteq> None \<longrightarrow>
              embeddings ! i = cache_lookup P w (texts ! i)) \<and>
           (\<forall>j < length (miss_indices P w texts).
              embeddings ! (miss_indices P w texts ! j) = nth_opt fresh j)"
    by (simp add: spliced_embeddings)
qed

lemmas lookup_defs =
  cache_lookup_def miss_indices_def missed_texts_def provider_batch_def cache_read_def
  cache_write_def warm_world_def five_texts_def

lemma warm_world_connected: "isConnected warm_world"
  by (simp add: warm_world_def empty_world_def)

lemma five_texts_missed:
  "missed_texts stub_platform warm_world five_texts
     = [''Title: far Description: s'', ''Title: short Description: s'']"
  by (simp add: lookup_defs engine_defs stub_defs)

lemma five_texts_fresh:
  "provider_batch stub_platform [''Title: far Description: s'', ''Title: short Description: s'']
     = Inr [[Fin 0, Fin 1], [Fin 1]]"
  by (simp add: lookup_defs stub_defs)

lemma five_texts_batch:
  "fst (getEmbeddingsBatch stub_platform five_texts True warm_world)
     = Inr [Some [Fin 1, Fin 0], Some [Fin 0, Fin 1], Some [Fin 0, Fin 1], Some [Fin 1],
            Some [Fin 1, Fin 0]]"
  by (simp add: lookup_defs engine_defs io_defs stub_defs Let_def)

theorem batch_reconciliation_witness:
  "isConnected warm_world \<and>
   missed_texts stub_platform warm_world five_texts
     = [''Title: far Description: s'', ''Title: short Description: s''] \<and>
   filter is_provider_call
     (drop (length (calls warm_world))
        (calls (snd (getEmbeddingsBatch stub_platform five_texts True warm_world))))
     = [EmbeddingsCreate (Batch [''Title: far Description: s'', ''Title: short Description: s''])] \<and>
   fst (getEmbeddingsBatch stub_platform five_texts True warm_world)
     = Inr [Some [Fin 1, Fin 0], Some [Fin 0, Fin 1], Some [Fin 0, Fin 1], Some [Fin 1],
            Some [Fin 1, Fin 0]] \<and>
   length [Some [Fin 1, Fin 0], Some [Fin 0, Fin 1], Some [Fin 0, Fin 1], Some [Fin 1],
            Some [Fin (1::real), Fin 0]] = length five_texts"
proof -
  note t = batch_reconciliation [OF warm_world_connected, of stub_platform five_texts
          endpoint_down "[[Fin 0, Fin 1], [Fin 1]]"]
  from t have
    "filter is_provider_call
       (drop (length (calls warm_world))
          (calls (snd (getEmbeddingsBatch stub_platform five_texts True warm_world))))
     = (if missed_texts stub_platform warm_world five_texts = [] then []
        else [EmbeddingsCreate (Batch (missed_texts stub_platform warm_world five_texts))])"
    by (rule conjunct1 [OF conjunct2])
  then have p:
    "filter is_provider_call
       (drop (length (calls warm_world))
          (calls (snd (getEmbeddingsBatch stub_platform five_texts True warm_world))))
     = [EmbeddingsCreate (Batch [''Title: far Description: s'', ''Title: short Description: s''])]"
    by (simp only: five_texts_missed list.distinct if_False)
  have l: "length [Some [Fin 1, Fin 0], Some [Fin 0, Fin 1], Some [Fin 0, Fin 1], Some [Fin 1],
            Some [Fin (1::real), Fin 0]] = length five_texts"
    by (simp add: five_texts_def)
  from warm_world_connected five_texts_missed p five_texts_batch l show ?thesis
    by (intro conjI)
qed

end
